theory Spec2Isabelle
  imports Main
begin

section \<open>Data model\<close>

text \<open>
  The serializers of \<^verbatim>\<open>recipe/serializers.py\<close> work on three tables (recipes, tags,
  ingredients) and on the two link tables of the many-to-many relations. Identifiers of
  users and rows are natural numbers.
\<close>

text \<open>
  The only exception the serializer methods can meet: \<^verbatim>\<open>get_or_create\<close> looks a row
  up with \<^verbatim>\<open>get\<close>, which raises when more than one row matches.
\<close>

datatype error = MultipleObjectsReturned

text \<open>
  Modelled from the spec: the models (\<^verbatim>\<open>core.models\<close> is not among the sources).
  A tag has a name and an owning user; an ingredient has the same shape, so one record
  type holds the rows of both tables.
\<close>

record row =
  row_id :: nat
  row_user :: nat
  row_name :: string

text \<open>
  Modelled from the spec: the Recipe model (\<^verbatim>\<open>core.models\<close> is not among the sources):
  title, time estimate, price, optional link, optional description, optional image and
  the owning user. The price is a decimal with two places, kept as its number of
  hundredths.
\<close>

record recipe =
  recipe_id :: nat
  user :: nat
  title :: string
  time_minutes :: int
  price :: int
  link :: string
  description :: string
  image :: "string option"

record database =
  Recipe_objects :: "recipe list"
  Tag_objects :: "row list"
  Ingredient_objects :: "row list"
  recipe_tags :: "(nat \<times> nat) list"
  recipe_ingredients :: "(nat \<times> nat) list"

text \<open>
  One item of a dictionary of attributes: the key is the constructor, the value its
  argument.
\<close>

datatype field =
    Title string
  | Time_minutes int
  | Price int
  | Link string
  | Description string
  | Image "string option"
  | User nat

fun key :: "field \<Rightarrow> string" where
  "key (Title v) = ''title''"
| "key (Time_minutes v) = ''time_minutes''"
| "key (Price v) = ''price''"
| "key (Link v) = ''link''"
| "key (Description v) = ''description''"
| "key (Image v) = ''image''"
| "key (User v) = ''user''"

text \<open>\<^verbatim>\<open>setattr(instance, attr, value)\<close> and \<^verbatim>\<open>getattr(instance, attr)\<close>.\<close>

fun setattr :: "recipe \<Rightarrow> field \<Rightarrow> recipe" where
  "setattr instance (Title v) = instance\<lparr>title := v\<rparr>"
| "setattr instance (Time_minutes v) = instance\<lparr>time_minutes := v\<rparr>"
| "setattr instance (Price v) = instance\<lparr>price := v\<rparr>"
| "setattr instance (Link v) = instance\<lparr>link := v\<rparr>"
| "setattr instance (Description v) = instance\<lparr>description := v\<rparr>"
| "setattr instance (Image v) = instance\<lparr>image := v\<rparr>"
| "setattr instance (User v) = instance\<lparr>user := v\<rparr>"

definition getattr :: "recipe \<Rightarrow> string \<Rightarrow> field option" where
  "getattr instance attr =
     (if attr = ''title'' then Some (Title (title instance))
      else if attr = ''time_minutes'' then Some (Time_minutes (time_minutes instance))
      else if attr = ''price'' then Some (Price (price instance))
      else if attr = ''link'' then Some (Link (link instance))
      else if attr = ''description'' then Some (Description (description instance))
      else if attr = ''image'' then Some (Image (image instance))
      else if attr = ''user'' then Some (User (user instance))
      else None)"

text \<open>
  The validated data a serializer method receives. The nested lists are the values of
  the keys \<^verbatim>\<open>tags\<close> and \<^verbatim>\<open>ingredients\<close> (\<open>None\<close> when the key is absent); every
  nested entry is a dictionary \<^verbatim>\<open>{'name': ...}\<close>, kept as its name. \<open>vd_attrs\<close> holds
  the other items of the dictionary, in order: what is left once both keys are popped.
\<close>

record validated_data =
  vd_tags :: "string list option"
  vd_ingredients :: "string list option"
  vd_attrs :: "field list"

section \<open>The object-relational mapper\<close>

text \<open>The identifier of a new row: one above every identifier of the table.\<close>

definition fresh_id :: "nat list \<Rightarrow> nat" where
  "fresh_id ids = Suc (foldr max ids 0)"

text \<open>
  \<^verbatim>\<open>Model.objects.get_or_create(user=u, name=n)\<close>: the row of that user and name when
  there is exactly one (with \<open>False\<close>), a new row appended to the table when there is
  none (with \<open>True\<close>), an exception when several rows match.
\<close>

definition get_or_create ::
  "nat \<Rightarrow> string \<Rightarrow> row list \<Rightarrow> error + ((row \<times> bool) \<times> row list)" where
  "get_or_create u n objects =
     (case filter (\<lambda>t. row_user t = u \<and> row_name t = n) objects of
        [] \<Rightarrow>
          (let t = \<lparr>row_id = fresh_id (map row_id objects), row_user = u, row_name = n\<rparr>
           in Inr ((t, True), objects @ [t]))
      | [t] \<Rightarrow> Inr ((t, False), objects)
      | _ \<Rightarrow> Inl MultipleObjectsReturned)"

text \<open>
  \<^verbatim>\<open>instance.tags.add(tag)\<close> inserts the link unless it is there already;
  \<^verbatim>\<open>instance.tags.clear()\<close> deletes every link of the instance.
\<close>

definition add :: "nat \<Rightarrow> nat \<Rightarrow> (nat \<times> nat) list \<Rightarrow> (nat \<times> nat) list" where
  "add rid tid links = (if (rid, tid) \<in> set links then links else links @ [(rid, tid)])"

definition clear :: "nat \<Rightarrow> (nat \<times> nat) list \<Rightarrow> (nat \<times> nat) list" where
  "clear rid links = filter (\<lambda>l. fst l \<noteq> rid) links"

text \<open>
  \<^verbatim>\<open>Recipe.objects.create(**kwargs)\<close>: a new instance takes the attributes given and
  the model's defaults for the others, then is inserted under a new identifier. The
  defaults are declared in \<^verbatim>\<open>core.models\<close>, so they are a parameter here.
\<close>

definition Recipe_objects_create ::
  "recipe \<Rightarrow> field list \<Rightarrow> database \<Rightarrow> recipe \<times> database" where
  "Recipe_objects_create defaults kwargs db =
     (let r = (fold (\<lambda>f i. setattr i f) kwargs defaults)
                \<lparr>recipe_id := fresh_id (map recipe_id (Recipe_objects db))\<rparr>
      in (r, db\<lparr>Recipe_objects := Recipe_objects db @ [r]\<rparr>))"

text \<open>
  \<^verbatim>\<open>instance.save()\<close>: the row with the instance's identifier is overwritten; when
  there is none, the instance is inserted.
\<close>

definition save :: "recipe \<Rightarrow> recipe list \<Rightarrow> recipe list" where
  "save instance objects =
     (if recipe_id instance \<in> recipe_id ` set objects
      then map (\<lambda>r. if recipe_id r = recipe_id instance then instance else r) objects
      else objects @ [instance])"

text \<open>\<^verbatim>\<open>recipe.tags.all()\<close> and \<^verbatim>\<open>recipe.ingredients.all()\<close>, by the recipe's identifier.\<close>

definition tags_all :: "database \<Rightarrow> nat \<Rightarrow> row list" where
  "tags_all db rid = filter (\<lambda>t. (rid, row_id t) \<in> set (recipe_tags db)) (Tag_objects db)"

definition ingredients_all :: "database \<Rightarrow> nat \<Rightarrow> row list" where
  "ingredients_all db rid =
     filter (\<lambda>t. (rid, row_id t) \<in> set (recipe_ingredients db)) (Ingredient_objects db)"

section \<open>RecipeSerializer\<close>

text \<open>
  \<^verbatim>\<open>_get_or_create_tags(self, tags, instance)\<close>, with \<open>auth_user\<close> the user of the
  request in the serializer's context. The state is the database; an exception of
  \<^verbatim>\<open>get_or_create\<close> ends the loop.
\<close>

fun get_or_create_tags :: "nat \<Rightarrow> string list \<Rightarrow> recipe \<Rightarrow> database \<Rightarrow> error + database" where
  "get_or_create_tags auth_user [] instance db = Inr db"
| "get_or_create_tags auth_user (tag # tags) instance db =
     (case get_or_create auth_user tag (Tag_objects db) of
        Inl e \<Rightarrow> Inl e
      | Inr ((t, created), objects) \<Rightarrow>
          get_or_create_tags auth_user tags instance
            (db\<lparr>Tag_objects := objects,
                recipe_tags := add (recipe_id instance) (row_id t) (recipe_tags db)\<rparr>))"

fun get_or_create_ingredients ::
  "nat \<Rightarrow> string list \<Rightarrow> recipe \<Rightarrow> database \<Rightarrow> error + database" where
  "get_or_create_ingredients auth_user [] instance db = Inr db"
| "get_or_create_ingredients auth_user (ingredient # ingredients) instance db =
     (case get_or_create auth_user ingredient (Ingredient_objects db) of
        Inl e \<Rightarrow> Inl e
      | Inr ((t, created), objects) \<Rightarrow>
          get_or_create_ingredients auth_user ingredients instance
            (db\<lparr>Ingredient_objects := objects,
                recipe_ingredients :=
                  add (recipe_id instance) (row_id t) (recipe_ingredients db)\<rparr>))"

text \<open>
  \<^verbatim>\<open>create(self, validated_data)\<close>: both keys are popped with the empty list as
  default, the recipe is created from the remaining items, then the tags and the
  ingredients are resolved and linked.
\<close>

definition create ::
  "recipe \<Rightarrow> nat \<Rightarrow> validated_data \<Rightarrow> database \<Rightarrow> error + (recipe \<times> database)" where
  "create defaults auth_user validated_data db =
     (let tags = (case vd_tags validated_data of None \<Rightarrow> [] | Some ts \<Rightarrow> ts);
          ingredients = (case vd_ingredients validated_data of None \<Rightarrow> [] | Some is \<Rightarrow> is);
          (recipe, db1) = Recipe_objects_create defaults (vd_attrs validated_data) db
      in case get_or_create_tags auth_user tags recipe db1 of
           Inl e \<Rightarrow> Inl e
         | Inr db2 \<Rightarrow>
             (case get_or_create_ingredients auth_user ingredients recipe db2 of
                Inl e \<Rightarrow> Inl e
              | Inr db3 \<Rightarrow> Inr (recipe, db3)))"

text \<open>
  \<^verbatim>\<open>update(self, instance, validated_data)\<close>: both keys are popped with \<open>None\<close> as
  default; a list that is present (the empty one too) clears the links of the instance
  and resolves the list; then every remaining item is set on the instance, which is
  saved.
\<close>

definition update ::
  "nat \<Rightarrow> recipe \<Rightarrow> validated_data \<Rightarrow> database \<Rightarrow> error + (recipe \<times> database)" where
  "update auth_user instance validated_data db =
     (let tags = vd_tags validated_data;
          ingredients = vd_ingredients validated_data
      in case (case tags of
                 None \<Rightarrow> Inr db
               | Some ts \<Rightarrow>
                   get_or_create_tags auth_user ts instance
                     (db\<lparr>recipe_tags := clear (recipe_id instance) (recipe_tags db)\<rparr>)) of
           Inl e \<Rightarrow> Inl e
         | Inr db1 \<Rightarrow>
             (case (case ingredients of
                      None \<Rightarrow> Inr db1
                    | Some is \<Rightarrow>
                        get_or_create_ingredients auth_user is instance
                          (db1\<lparr>recipe_ingredients :=
                                 clear (recipe_id instance) (recipe_ingredients db1)\<rparr>)) of
                Inl e \<Rightarrow> Inl e
              | Inr db2 \<Rightarrow>
                  (let instance' = fold (\<lambda>f i. setattr i f) (vd_attrs validated_data) instance
                   in Inr (instance', db2\<lparr>Recipe_objects := save instance' (Recipe_objects db2)\<rparr>))))"

section \<open>Validation and the viewset\<close>

text \<open>
  The request body before validation: the nested lists and the other keys, declared
  by the serializer or not (a \<^verbatim>\<open>user\<close> key among them).
\<close>

record payload =
  p_tags :: "string list option"
  p_ingredients :: "string list option"
  p_attrs :: "field list"

text \<open>\<^verbatim>\<open>RecipeSerializer.Meta\<close> and \<^verbatim>\<open>RecipeDetailSerializer.Meta\<close>.\<close>

definition Meta_fields :: "string list" where
  "Meta_fields =
     [''id'', ''title'', ''time_minutes'', ''price'', ''link'', ''tags'', ''ingredients'']"

definition Meta_read_only_fields :: "string list" where
  "Meta_read_only_fields = [''id'']"

definition Detail_Meta_fields :: "string list" where
  "Detail_Meta_fields = Meta_fields @ [''description'', ''image'']"

text \<open>
  Modelled from the spec: the fields a full payload must hold (the model's field
  options are declared in \<^verbatim>\<open>core.models\<close>, not among the sources): a payload missing
  required scalar fields is a validation error; link, description and image are optional.
\<close>

definition required_fields :: "string list" where
  "required_fields = [''title'', ''time_minutes'', ''price'']"

text \<open>
  Validation by a model serializer with the field list \<open>field_names\<close>: every declared,
  writable field takes its value from the payload when the payload has the key; a key
  that is not declared is not read. A required field that is missing fails the
  validation unless the update is partial.
\<close>

definition run_validation :: "string list \<Rightarrow> bool \<Rightarrow> payload \<Rightarrow> validated_data option" where
  "run_validation field_names partial data =
     (let writable = filter (\<lambda>k. k \<notin> set Meta_read_only_fields) field_names
      in if \<not> partial \<and>
            (\<exists>k \<in> set required_fields. k \<in> set writable \<and> k \<notin> key ` set (p_attrs data))
         then None
         else Some \<lparr>vd_tags = (if ''tags'' \<in> set writable then p_tags data else None),
                    vd_ingredients =
                      (if ''ingredients'' \<in> set writable then p_ingredients data else None),
                    vd_attrs =
                      List.map_filter (\<lambda>k. find (\<lambda>f. key f = k) (p_attrs data)) writable\<rparr>)"

datatype status =
    HTTP_200_OK
  | HTTP_201_CREATED
  | HTTP_204_NO_CONTENT
  | HTTP_400_BAD_REQUEST
  | HTTP_404_NOT_FOUND

text \<open>
  Modelled from the spec: the viewset (\<^verbatim>\<open>recipe/views.py\<close> is not among the sources).
  Listing and detail-fetch are scoped to the requester's own recipes; a request for a
  nonexistent or not-owned recipe is a not-found error.
\<close>

definition get_queryset :: "nat \<Rightarrow> database \<Rightarrow> recipe list" where
  "get_queryset auth_user db = filter (\<lambda>r. user r = auth_user) (Recipe_objects db)"

definition get_object :: "nat \<Rightarrow> nat \<Rightarrow> database \<Rightarrow> recipe option" where
  "get_object auth_user rid db = find (\<lambda>r. recipe_id r = rid) (get_queryset auth_user db)"

text \<open>
  Modelled from the spec: the handlers of the viewset (\<^verbatim>\<open>recipe/views.py\<close> is not
  among the sources), each for an authenticated user. A handler answers with a status
  and, on success, the recipe; an exception of the serializer is passed on. Creating
  saves the serializer with the user of the request, which the test
  \<^verbatim>\<open>test_create_recipe\<close> observes; the keyword replaces a key of the same name.
\<close>

definition view_retrieve ::
  "nat \<Rightarrow> nat \<Rightarrow> database \<Rightarrow> (status \<times> recipe option) \<times> database" where
  "view_retrieve auth_user rid db =
     (case get_object auth_user rid db of
        None \<Rightarrow> ((HTTP_404_NOT_FOUND, None), db)
      | Some instance \<Rightarrow> ((HTTP_200_OK, Some instance), db))"

definition view_create ::
  "string list \<Rightarrow> recipe \<Rightarrow> nat \<Rightarrow> payload \<Rightarrow> database \<Rightarrow>
     error + ((status \<times> recipe option) \<times> database)" where
  "view_create field_names defaults auth_user data db =
     (case run_validation field_names False data of
        None \<Rightarrow> Inr ((HTTP_400_BAD_REQUEST, None), db)
      | Some vd \<Rightarrow>
          (case create defaults auth_user
                  (vd\<lparr>vd_attrs :=
                        filter (\<lambda>f. key f \<noteq> ''user'') (vd_attrs vd) @ [User auth_user]\<rparr>) db of
             Inl e \<Rightarrow> Inl e
           | Inr (recipe, db') \<Rightarrow> Inr ((HTTP_201_CREATED, Some recipe), db')))"

definition view_update ::
  "string list \<Rightarrow> nat \<Rightarrow> nat \<Rightarrow> bool \<Rightarrow> payload \<Rightarrow> database \<Rightarrow>
     error + ((status \<times> recipe option) \<times> database)" where
  "view_update field_names auth_user rid partial data db =
     (case get_object auth_user rid db of
        None \<Rightarrow> Inr ((HTTP_404_NOT_FOUND, None), db)
      | Some instance \<Rightarrow>
          (case run_validation field_names partial data of
             None \<Rightarrow> Inr ((HTTP_400_BAD_REQUEST, None), db)
           | Some vd \<Rightarrow>
               (case update auth_user instance vd db of
                  Inl e \<Rightarrow> Inl e
                | Inr (instance', db') \<Rightarrow> Inr ((HTTP_200_OK, Some instance'), db'))))"

definition view_destroy ::
  "nat \<Rightarrow> nat \<Rightarrow> database \<Rightarrow> (status \<times> recipe option) \<times> database" where
  "view_destroy auth_user rid db =
     (case get_object auth_user rid db of
        None \<Rightarrow> ((HTTP_404_NOT_FOUND, None), db)
      | Some instance \<Rightarrow>
          ((HTTP_204_NO_CONTENT, None),
           db\<lparr>Recipe_objects := filter (\<lambda>r. recipe_id r \<noteq> rid) (Recipe_objects db),
              recipe_tags := clear rid (recipe_tags db),
              recipe_ingredients := clear rid (recipe_ingredients db)\<rparr>))"

section \<open>Integrity of the database\<close>

text \<open>
  A user has at most one row of a name in a table: the convention that
  \<^verbatim>\<open>get_or_create\<close>, keyed on user and name, keeps.
\<close>

definition unique_names :: "row list \<Rightarrow> bool" where
  "unique_names objects = distinct (map (\<lambda>t. (row_user t, row_name t)) objects)"

text \<open>
  Primary keys are unique, names are unique per user, and a link joins a recipe and a
  row that exist.
\<close>

definition wf_db :: "database \<Rightarrow> bool" where
  "wf_db db \<longleftrightarrow>
     distinct (map recipe_id (Recipe_objects db)) \<and>
     distinct (map row_id (Tag_objects db)) \<and>
     distinct (map row_id (Ingredient_objects db)) \<and>
     unique_names (Tag_objects db) \<and>
     unique_names (Ingredient_objects db) \<and>
     (\<forall>l \<in> set (recipe_tags db).
        fst l \<in> recipe_id ` set (Recipe_objects db) \<and> snd l \<in> row_id ` set (Tag_objects db)) \<and>
     (\<forall>l \<in> set (recipe_ingredients db).
        fst l \<in> recipe_id ` set (Recipe_objects db) \<and>
        snd l \<in> row_id ` set (Ingredient_objects db))"

text \<open>Every tag and ingredient of a recipe belongs to the recipe's owner.\<close>

definition owner_inv :: "database \<Rightarrow> bool" where
  "owner_inv db \<longleftrightarrow>
     (\<forall>r \<in> set (Recipe_objects db).
        (\<forall>t \<in> set (tags_all db (recipe_id r)). row_user t = user r) \<and>
        (\<forall>t \<in> set (ingredients_all db (recipe_id r)). row_user t = user r))"

text \<open>The user \<open>u\<close> has a row named \<open>n\<close> in the table.\<close>

definition owns :: "nat \<Rightarrow> string \<Rightarrow> row list \<Rightarrow> bool" where
  "owns u n objects \<longleftrightarrow> (\<exists>t \<in> set objects. row_user t = u \<and> row_name t = n)"

text \<open>
  The loop shared by \<open>get_or_create_tags\<close> and \<open>get_or_create_ingredients\<close>, on one
  table and its link table.
\<close>

fun resolve ::
  "nat \<Rightarrow> string list \<Rightarrow> nat \<Rightarrow> row list \<Rightarrow> (nat \<times> nat) list \<Rightarrow>
     error + (row list \<times> (nat \<times> nat) list)" where
  "resolve u [] rid objects links = Inr (objects, links)"
| "resolve u (n # ns) rid objects links =
     (case get_or_create u n objects of
        Inl e \<Rightarrow> Inl e
      | Inr ((t, created), objects') \<Rightarrow> resolve u ns rid objects' (add rid (row_id t) links))"

text \<open>
  One list of an update, on one table and its link table: nothing when the key is
  absent; otherwise the links of the recipe are cleared and the list is resolved.
\<close>

definition replace ::
  "nat \<Rightarrow> string list option \<Rightarrow> nat \<Rightarrow> row list \<Rightarrow> (nat \<times> nat) list \<Rightarrow>
     error + (row list \<times> (nat \<times> nat) list)" where
  "replace u names rid objects links =
     (case names of
        None \<Rightarrow> Inr (objects, links)
      | Some ns \<Rightarrow> resolve u ns rid objects (clear rid links))"

text \<open>Every row linked to a recipe belongs to the recipe's owner, on one link table.\<close>

definition owned :: "recipe list \<Rightarrow> row list \<Rightarrow> (nat \<times> nat) list \<Rightarrow> bool" where
  "owned recipes objects links \<longleftrightarrow>
     (\<forall>r \<in> set recipes. \<forall>t \<in> set objects.
        (recipe_id r, row_id t) \<in> set links \<longrightarrow> row_user t = user r)"

section \<open>Example states\<close>

text \<open>
  A small database on which the theorems below are instantiated: two users, a recipe
  of each, and the tags and ingredients the tests of the repository use.
\<close>

definition example_defaults :: recipe where
  "example_defaults =
     \<lparr>recipe_id = 0, user = 0, title = [], time_minutes = 0, price = 0, link = [],
      description = [], image = None\<rparr>"

definition example_recipe :: recipe where
  "example_recipe =
     \<lparr>recipe_id = 1, user = 1, title = ''Sample Recipe'', time_minutes = 22, price = 525,
      link = ''https://example.com/recipe.pdf'', description = ''Sample recipe description'',
      image = None\<rparr>"

definition other_recipe :: recipe where
  "other_recipe =
     \<lparr>recipe_id = 2, user = 2, title = ''Pongal'', time_minutes = 60, price = 450,
      link = [], description = [], image = None\<rparr>"

definition example_db :: database where
  "example_db =
     \<lparr>Recipe_objects = [example_recipe, other_recipe],
      Tag_objects =
        [\<lparr>row_id = 1, row_user = 1, row_name = ''Breakfast''\<rparr>,
         \<lparr>row_id = 2, row_user = 1, row_name = ''Indian''\<rparr>,
         \<lparr>row_id = 3, row_user = 2, row_name = ''Lunch''\<rparr>],
      Ingredient_objects = [\<lparr>row_id = 1, row_user = 1, row_name = ''Salt''\<rparr>],
      recipe_tags = [(1, 1), (2, 3)],
      recipe_ingredients = [(1, 1)]\<rparr>"

definition empty_db :: database where
  "empty_db =
     \<lparr>Recipe_objects = [], Tag_objects = [], Ingredient_objects = [],
      recipe_tags = [], recipe_ingredients = []\<rparr>"

section \<open>The lookup and the loop\<close>

lemma get_or_create_InrD:
  assumes "get_or_create u n objs = Inr ((t, c), objs')"
  shows "(c = False \<and> objs' = objs \<and> t \<in> set objs \<and> row_user t = u \<and> row_name t = n) \<or>
         (c = True \<and> objs' = objs @ [t] \<and> \<not> owns u n objs \<and>
          t = \<lparr>row_id = fresh_id (map row_id objs), row_user = u, row_name = n\<rparr>)"
proof (cases "filter (\<lambda>t. row_user t = u \<and> row_name t = n) objs")
  case Nil
  then have "\<not> owns u n objs"
    by (simp add: owns_def filter_empty_conv)
  moreover from Nil assms
  have "c = True \<and> objs' = objs @ [t] \<and>
        t = \<lparr>row_id = fresh_id (map row_id objs), row_user = u, row_name = n\<rparr>"
    by (simp add: get_or_create_def Let_def) blast
  ultimately show ?thesis by simp
next
  case (Cons a as)
  then have "a \<in> set (filter (\<lambda>t. row_user t = u \<and> row_name t = n) objs)" by simp
  then have a: "a \<in> set objs \<and> row_user a = u \<and> row_name a = n" by simp
  from Cons assms have "as = [] \<and> t = a \<and> c = False \<and> objs' = objs"
    by (cases as) (simp_all add: get_or_create_def)
  with a show ?thesis by simp
qed

lemma filter_key_distinct:
  assumes "distinct (map f xs)"
  shows "filter (\<lambda>x. f x = k) xs = [] \<or> (\<exists>x. filter (\<lambda>x. f x = k) xs = [x])"
  using assms
proof (induction xs)
  case Nil
  then show ?case by simp
next
  case (Cons a xs)
  show ?case
  proof (cases "f a = k")
    case True
    with Cons.prems have "k \<notin> f ` set xs" by simp
    then have "\<forall>x \<in> set xs. f x \<noteq> k" by blast
    then have "filter (\<lambda>x. f x = k) xs = []" by (simp add: filter_empty_conv)
    with True show ?thesis by simp
  next
    case False
    with Cons show ?thesis by simp
  qed
qed


lemma fresh_id_greater: "i \<in> set ids \<Longrightarrow> i < fresh_id ids"
  unfolding fresh_id_def by (induction ids) auto

lemma owns_append:
  "owns u n (objs @ new) \<longleftrightarrow> owns u n objs \<or> owns u n new"
  by (auto simp: owns_def)

lemma owns_single:
  "owns u n [t] \<longleftrightarrow> row_user t = u \<and> row_name t = n"
  by (simp add: owns_def)

lemma get_or_create_found:
  assumes "unique_names objs" "t \<in> set objs" "row_user t = u" "row_name t = n"
  shows "get_or_create u n objs = Inr ((t, False), objs)"
proof -
  let ?f = "\<lambda>t. (row_user t, row_name t)"
  have eq: "(\<lambda>t. row_user t = u \<and> row_name t = n) = (\<lambda>t. ?f t = (u, n))" by auto
  from assms(1) have "distinct (map ?f objs)" by (simp add: unique_names_def)
  from filter_key_distinct[OF this, of "(u, n)"]
  have alt: "filter (\<lambda>t. row_user t = u \<and> row_name t = n) objs = [] \<or>
        (\<exists>x. filter (\<lambda>t. row_user t = u \<and> row_name t = n) objs = [x])"
    by (simp only: eq)
  have mem: "t \<in> set (filter (\<lambda>t. row_user t = u \<and> row_name t = n) objs)"
    using assms by simp
  have "filter (\<lambda>t. row_user t = u \<and> row_name t = n) objs = [t]"
  proof (rule disjE[OF alt])
    assume "filter (\<lambda>t. row_user t = u \<and> row_name t = n) objs = []"
    with mem show ?thesis by (simp only: set_simps empty_iff)
  next
    assume "\<exists>x. filter (\<lambda>t. row_user t = u \<and> row_name t = n) objs = [x]"
    then obtain x where x: "filter (\<lambda>t. row_user t = u \<and> row_name t = n) objs = [x]" ..
    with mem have "t = x" by (simp only: set_simps insert_iff empty_iff) simp
    with x show ?thesis by simp
  qed
  then show ?thesis by (simp add: get_or_create_def)
qed

lemma get_or_create_new:
  assumes "\<not> owns u n objs"
  shows "get_or_create u n objs =
    Inr ((\<lparr>row_id = fresh_id (map row_id objs), row_user = u, row_name = n\<rparr>, True),
         objs @ [\<lparr>row_id = fresh_id (map row_id objs), row_user = u, row_name = n\<rparr>])"
proof -
  from assms have "filter (\<lambda>t. row_user t = u \<and> row_name t = n) objs = []"
    by (simp add: owns_def filter_empty_conv)
  then show ?thesis by (simp add: get_or_create_def Let_def)
qed

lemma get_or_create_succeeds:
  assumes "unique_names objs"
  shows "\<exists>t c objs'. get_or_create u n objs = Inr ((t, c), objs')"
proof (cases "owns u n objs")
  case True
  then obtain t where "t \<in> set objs" "row_user t = u" "row_name t = n"
    by (auto simp: owns_def)
  with assms show ?thesis by (blast dest: get_or_create_found)
next
  case False
  then show ?thesis by (blast dest: get_or_create_new)
qed

lemma unique_names_snoc:
  assumes "unique_names objs" "\<not> owns (row_user t) (row_name t) objs"
  shows "unique_names (objs @ [t])"
  using assms by (auto simp: unique_names_def owns_def)

lemma get_or_create_row:
  assumes "get_or_create u n objs = Inr ((t, c), objs')"
  shows "t \<in> set objs' \<and> row_user t = u \<and> row_name t = n"
  using get_or_create_InrD[OF assms] by auto

lemma get_or_create_unique:
  assumes "get_or_create u n objs = Inr ((t, c), objs')" "unique_names objs"
  shows "unique_names objs'"
  using get_or_create_InrD[OF assms(1)] assms(2)
  by (auto intro: unique_names_snoc)

lemma get_or_create_pk:
  assumes "get_or_create u n objs = Inr ((t, c), objs')" "distinct (map row_id objs)"
  shows "distinct (map row_id objs')"
proof -
  have "fresh_id (map row_id objs) \<notin> set (map row_id objs)"
    using fresh_id_greater[of "fresh_id (map row_id objs)" "map row_id objs"] by blast
  with get_or_create_InrD[OF assms(1)] assms(2) show ?thesis by auto
qed

lemma get_or_create_subset:
  assumes "get_or_create u n objs = Inr ((t, c), objs')"
  shows "set objs \<subseteq> set objs'"
  using get_or_create_InrD[OF assms] by auto


lemma resolve_Cons_InrD:
  assumes "resolve u (n # ns) rid objs links = Inr (objs', links')"
  obtains t c objs1 where
    "get_or_create u n objs = Inr ((t, c), objs1)"
    "resolve u ns rid objs1 (add rid (row_id t) links) = Inr (objs', links')"
  using assms by (auto split: sum.splits)

lemma resolve_succeeds:
  "unique_names objs \<Longrightarrow> \<exists>objs' links'. resolve u ns rid objs links = Inr (objs', links')"
proof (induction ns arbitrary: objs links)
  case Nil
  then show ?case by simp
next
  case (Cons n ns)
  from get_or_create_succeeds[OF Cons.prems] obtain t c objs1
    where g: "get_or_create u n objs = Inr ((t, c), objs1)" by blast
  from get_or_create_unique[OF g Cons.prems] have "unique_names objs1" .
  from Cons.IH[OF this, of "add rid (row_id t) links"] g show ?case by simp
qed

lemma resolve_unique:
  "resolve u ns rid objs links = Inr (objs', links') \<Longrightarrow> unique_names objs \<Longrightarrow>
   unique_names objs'"
proof (induction ns arbitrary: objs links)
  case Nil
  then show ?case by simp
next
  case (Cons n ns)
  from Cons.prems(1) obtain t c objs1 where
    g: "get_or_create u n objs = Inr ((t, c), objs1)" and
    r: "resolve u ns rid objs1 (add rid (row_id t) links) = Inr (objs', links')"
    by (rule resolve_Cons_InrD)
  from get_or_create_unique[OF g Cons.prems(2)] Cons.IH[OF r] show ?case by blast
qed

lemma resolve_pk:
  "resolve u ns rid objs links = Inr (objs', links') \<Longrightarrow> distinct (map row_id objs) \<Longrightarrow>
   distinct (map row_id objs')"
proof (induction ns arbitrary: objs links)
  case Nil
  then show ?case by simp
next
  case (Cons n ns)
  from Cons.prems(1) obtain t c objs1 where
    g: "get_or_create u n objs = Inr ((t, c), objs1)" and
    r: "resolve u ns rid objs1 (add rid (row_id t) links) = Inr (objs', links')"
    by (rule resolve_Cons_InrD)
  from get_or_create_pk[OF g Cons.prems(2)] Cons.IH[OF r] show ?case by blast
qed

text \<open>The table only grows, by rows of the user, named in the list and missing before.\<close>

lemma resolve_extends:
  "resolve u ns rid objs links = Inr (objs', links') \<Longrightarrow>
   \<exists>new. objs' = objs @ new \<and>
     (\<forall>t \<in> set new. row_user t = u \<and> row_name t \<in> set ns \<and> \<not> owns u (row_name t) objs \<and>
        row_id t \<notin> row_id ` set objs)"
proof (induction ns arbitrary: objs links)
  case Nil
  then show ?case by simp
next
  case (Cons n ns)
  from Cons.prems(1) obtain t c objs1 where
    g: "get_or_create u n objs = Inr ((t, c), objs1)" and
    r: "resolve u ns rid objs1 (add rid (row_id t) links) = Inr (objs', links')"
    by (rule resolve_Cons_InrD)
  from Cons.IH[OF r] obtain new where
    new: "objs' = objs1 @ new"
      "\<forall>t \<in> set new. row_user t = u \<and> row_name t \<in> set ns \<and> \<not> owns u (row_name t) objs1 \<and>
        row_id t \<notin> row_id ` set objs1"
    by blast
  from get_or_create_InrD[OF g] show ?case
  proof
    assume "c = False \<and> objs1 = objs \<and> t \<in> set objs \<and> row_user t = u \<and> row_name t = n"
    with new show ?thesis by auto
  next
    assume a: "c = True \<and> objs1 = objs @ [t] \<and> \<not> owns u n objs \<and>
          t = \<lparr>row_id = fresh_id (map row_id objs), row_user = u, row_name = n\<rparr>"
    have "row_id t \<notin> row_id ` set objs"
      using a fresh_id_greater[of "row_id t" "map row_id objs"] by auto
    with a new have "objs' = objs @ (t # new) \<and>
      (\<forall>t \<in> set (t # new). row_user t = u \<and> row_name t \<in> set (n # ns) \<and>
         \<not> owns u (row_name t) objs \<and> row_id t \<notin> row_id ` set objs)"
      by (auto simp: owns_append)
    then show ?thesis by blast
  qed
qed


lemma unique_names_eq:
  assumes "unique_names objs" "a \<in> set objs" "b \<in> set objs"
    "row_user a = row_user b" "row_name a = row_name b"
  shows "a = b"
proof -
  from assms(1) have "inj_on (\<lambda>t. (row_user t, row_name t)) (set objs)"
    by (simp add: unique_names_def distinct_map)
  with assms(2-) show ?thesis by (auto dest: inj_onD)
qed

lemma pk_eq:
  assumes "distinct (map row_id objs)" "a \<in> set objs" "b \<in> set objs" "row_id a = row_id b"
  shows "a = b"
proof -
  from assms(1) have "inj_on row_id (set objs)" by (simp add: distinct_map)
  with assms(2-) show ?thesis by (auto dest: inj_onD)
qed

lemma set_add: "set (add rid tid links) = insert (rid, tid) (set links)"
  by (auto simp: add_def)

lemma set_clear: "set (clear rid links) = {l \<in> set links. fst l \<noteq> rid}"
  by (auto simp: clear_def)

lemma resolve_subset:
  assumes "resolve u ns rid objs links = Inr (objs', links')"
  shows "set objs \<subseteq> set objs'"
  using resolve_extends[OF assms] by auto

lemma resolve_links:
  "resolve u ns rid objs links = Inr (objs', links') \<Longrightarrow> unique_names objs \<Longrightarrow>
   set links' =
     set links \<union> {(rid, row_id t) | t. t \<in> set objs' \<and> row_user t = u \<and> row_name t \<in> set ns}"
proof (induction ns arbitrary: objs links)
  case Nil
  then show ?case by simp
next
  case (Cons n ns)
  from Cons.prems(1) obtain t c objs1 where
    g: "get_or_create u n objs = Inr ((t, c), objs1)" and
    r: "resolve u ns rid objs1 (add rid (row_id t) links) = Inr (objs', links')"
    by (rule resolve_Cons_InrD)
  have u1: "unique_names objs1" by (rule get_or_create_unique[OF g Cons.prems(2)])
  have u': "unique_names objs'" by (rule resolve_unique[OF r u1])
  from get_or_create_row[OF g] resolve_subset[OF r]
  have t: "t \<in> set objs'" "row_user t = u" "row_name t = n" by auto
  have one: "t' = t" if "t' \<in> set objs'" "row_user t' = u" "row_name t' = n" for t'
    using unique_names_eq[OF u' that(1) t(1)] that t by simp
  have "{(rid, row_id t') | t'. t' \<in> set objs' \<and> row_user t' = u \<and> row_name t' \<in> set (n # ns)} =
        insert (rid, row_id t)
          {(rid, row_id t') | t'. t' \<in> set objs' \<and> row_user t' = u \<and> row_name t' \<in> set ns}"
    (is "?L = ?R")
  proof
    show "?L \<subseteq> ?R"
    proof
      fix x assume "x \<in> ?L"
      then obtain t' where t': "x = (rid, row_id t')" "t' \<in> set objs'" "row_user t' = u"
        "row_name t' \<in> set (n # ns)" by blast
      show "x \<in> ?R"
      proof (cases "row_name t' = n")
        case True
        from one[OF t'(2,3) True] t'(1) show ?thesis by simp
      next
        case False
        with t' show ?thesis by auto
      qed
    qed
    show "?R \<subseteq> ?L" using t by auto
  qed
  with Cons.IH[OF r u1] show ?case by (simp only: set_add Un_insert_left Un_insert_right)
qed

lemma owns_snoc_new:
  "owns u m (objs @ [\<lparr>row_id = i, row_user = u, row_name = n\<rparr>]) \<longleftrightarrow> owns u m objs \<or> m = n"
  by (auto simp: owns_def)

lemma resolve_count:
  "resolve u ns rid objs links = Inr (objs', links') \<Longrightarrow>
   length objs' = length objs + card {n \<in> set ns. \<not> owns u n objs}"
proof (induction ns arbitrary: objs links)
  case Nil
  then show ?case by simp
next
  case (Cons n ns)
  from Cons.prems(1) obtain t c objs1 where
    g: "get_or_create u n objs = Inr ((t, c), objs1)" and
    r: "resolve u ns rid objs1 (add rid (row_id t) links) = Inr (objs', links')"
    by (rule resolve_Cons_InrD)
  note IH = Cons.IH[OF r]
  from get_or_create_InrD[OF g] show ?case
  proof
    assume a: "c = False \<and> objs1 = objs \<and> t \<in> set objs \<and> row_user t = u \<and> row_name t = n"
    then have "owns u n objs" by (auto simp: owns_def)
    then have "{m \<in> set (n # ns). \<not> owns u m objs} = {m \<in> set ns. \<not> owns u m objs}"
      by auto
    with IH a show ?thesis by simp
  next
    assume a: "c = True \<and> objs1 = objs @ [t] \<and> \<not> owns u n objs \<and>
          t = \<lparr>row_id = fresh_id (map row_id objs), row_user = u, row_name = n\<rparr>"
    then have o: "owns u m objs1 \<longleftrightarrow> owns u m objs \<or> m = n" for m
      using owns_snoc_new[of u m objs "fresh_id (map row_id objs)" n] by simp
    have "{m \<in> set (n # ns). \<not> owns u m objs} = insert n {m \<in> set ns. \<not> owns u m objs1}"
      using a o by auto
    moreover have "card (insert n {m \<in> set ns. \<not> owns u m objs1}) =
        Suc (card {m \<in> set ns. \<not> owns u m objs1})"
      by (rule card_insert_disjoint) (simp_all add: o)
    ultimately have "card {m \<in> set (n # ns). \<not> owns u m objs} =
        Suc (card {m \<in> set ns. \<not> owns u m objs1})"
      by (simp only:)
    with IH a show ?thesis by simp
  qed
qed


lemma get_or_create_tags_resolve:
  "get_or_create_tags u ns inst db =
     (case resolve u ns (recipe_id inst) (Tag_objects db) (recipe_tags db) of
        Inl e \<Rightarrow> Inl e
      | Inr (objs, links) \<Rightarrow> Inr (db\<lparr>Tag_objects := objs, recipe_tags := links\<rparr>))"
proof (induction ns arbitrary: db)
  case Nil
  then show ?case by simp
next
  case (Cons n ns)
  show ?case
  proof (cases "get_or_create u n (Tag_objects db)")
    case (Inl e)
    then show ?thesis by simp
  next
    case (Inr x)
    then obtain t c objs1 where x: "x = ((t, c), objs1)" by (metis prod.exhaust)
    with Inr Cons.IH show ?thesis by (simp split: sum.splits)
  qed
qed

lemma get_or_create_ingredients_resolve:
  "get_or_create_ingredients u ns inst db =
     (case resolve u ns (recipe_id inst) (Ingredient_objects db) (recipe_ingredients db) of
        Inl e \<Rightarrow> Inl e
      | Inr (objs, links) \<Rightarrow>
          Inr (db\<lparr>Ingredient_objects := objs, recipe_ingredients := links\<rparr>))"
proof (induction ns arbitrary: db)
  case Nil
  then show ?case by simp
next
  case (Cons n ns)
  show ?case
  proof (cases "get_or_create u n (Ingredient_objects db)")
    case (Inl e)
    then show ?thesis by simp
  next
    case (Inr x)
    then obtain t c objs1 where x: "x = ((t, c), objs1)" by (metis prod.exhaust)
    with Inr Cons.IH show ?thesis by (simp split: sum.splits)
  qed
qed

lemma get_or_create_tags_InrD:
  assumes "get_or_create_tags u ns inst db = Inr db'"
  obtains objs links where
    "resolve u ns (recipe_id inst) (Tag_objects db) (recipe_tags db) = Inr (objs, links)"
    "db' = db\<lparr>Tag_objects := objs, recipe_tags := links\<rparr>"
  using assms unfolding get_or_create_tags_resolve by (auto split: sum.splits)

lemma get_or_create_ingredients_InrD:
  assumes "get_or_create_ingredients u ns inst db = Inr db'"
  obtains objs links where
    "resolve u ns (recipe_id inst) (Ingredient_objects db) (recipe_ingredients db) =
       Inr (objs, links)"
    "db' = db\<lparr>Ingredient_objects := objs, recipe_ingredients := links\<rparr>"
  using assms unfolding get_or_create_ingredients_resolve by (auto split: sum.splits)

lemma get_or_create_tags_succeeds:
  assumes "unique_names (Tag_objects db)"
  shows "\<exists>db'. get_or_create_tags u ns inst db = Inr db'"
proof -
  from resolve_succeeds[OF assms, of u ns "recipe_id inst" "recipe_tags db"]
  obtain objs links where
    "resolve u ns (recipe_id inst) (Tag_objects db) (recipe_tags db) = Inr (objs, links)"
    by blast
  then show ?thesis by (simp add: get_or_create_tags_resolve)
qed

lemma get_or_create_ingredients_succeeds:
  assumes "unique_names (Ingredient_objects db)"
  shows "\<exists>db'. get_or_create_ingredients u ns inst db = Inr db'"
proof -
  from resolve_succeeds[OF assms, of u ns "recipe_id inst" "recipe_ingredients db"]
  obtain objs links where
    "resolve u ns (recipe_id inst) (Ingredient_objects db) (recipe_ingredients db) =
       Inr (objs, links)"
    by blast
  then show ?thesis by (simp add: get_or_create_ingredients_resolve)
qed


lemma clear_none: "\<forall>l \<in> set links. fst l \<noteq> rid \<Longrightarrow> clear rid links = links"
  by (simp add: clear_def)

lemma replace_succeeds:
  "unique_names objs \<Longrightarrow> \<exists>objs' links'. replace u names rid objs links = Inr (objs', links')"
  by (cases names) (simp_all add: replace_def resolve_succeeds)

lemma replace_None: "replace u None rid objs links = Inr (objs, links)"
  by (simp add: replace_def)

lemma replace_Some: "replace u (Some ns) rid objs links = resolve u ns rid objs (clear rid links)"
  by (simp add: replace_def)

lemma replace_extends:
  assumes "replace u names rid objs links = Inr (objs', links')"
  shows "\<exists>new. objs' = objs @ new \<and>
     (\<forall>t \<in> set new. row_user t = u \<and> \<not> owns u (row_name t) objs \<and>
        row_id t \<notin> row_id ` set objs \<and> (\<exists>ns. names = Some ns \<and> row_name t \<in> set ns))"
proof (cases names)
  case None
  with assms show ?thesis by (simp add: replace_def)
next
  case (Some ns)
  with assms have "resolve u ns rid objs (clear rid links) = Inr (objs', links')"
    by (simp add: replace_def)
  from resolve_extends[OF this] Some show ?thesis by auto
qed

lemma replace_unique:
  assumes "replace u names rid objs links = Inr (objs', links')" "unique_names objs"
  shows "unique_names objs'"
  using assms by (cases names) (auto simp: replace_def dest: resolve_unique)

lemma replace_pk:
  assumes "replace u names rid objs links = Inr (objs', links')" "distinct (map row_id objs)"
  shows "distinct (map row_id objs')"
  using assms by (cases names) (auto simp: replace_def dest: resolve_pk)

lemma replace_links:
  assumes "replace u (Some ns) rid objs links = Inr (objs', links')" "unique_names objs"
  shows "set links' = {l \<in> set links. fst l \<noteq> rid} \<union>
     {(rid, row_id t) | t. t \<in> set objs' \<and> row_user t = u \<and> row_name t \<in> set ns}"
  using resolve_links[OF assms(1)[unfolded replace_Some] assms(2)] by (simp only: set_clear)

text \<open>The rows linked to the recipe after a list was resolved.\<close>

lemma replace_linked:
  assumes "replace u (Some ns) rid objs links = Inr (objs', links')" "unique_names objs"
    "distinct (map row_id objs)"
  shows "{t \<in> set objs'. (rid, row_id t) \<in> set links'} =
         {t \<in> set objs'. row_user t = u \<and> row_name t \<in> set ns}"
proof -
  note L = replace_links[OF assms(1,2)]
  have pk: "distinct (map row_id objs')" by (rule replace_pk[OF assms(1,3)])
  show ?thesis
  proof (intro set_eqI iffI)
    fix t assume "t \<in> {t \<in> set objs'. (rid, row_id t) \<in> set links'}"
    then have t: "t \<in> set objs'" "(rid, row_id t) \<in> set links'" by simp_all
    from t(2) L obtain t0 where t0: "row_id t = row_id t0" "t0 \<in> set objs'" "row_user t0 = u"
      "row_name t0 \<in> set ns" by auto
    from pk_eq[OF pk t(1) t0(2) t0(1)] t0 t(1)
    show "t \<in> {t \<in> set objs'. row_user t = u \<and> row_name t \<in> set ns}" by simp
  next
    fix t assume "t \<in> {t \<in> set objs'. row_user t = u \<and> row_name t \<in> set ns}"
    with L show "t \<in> {t \<in> set objs'. (rid, row_id t) \<in> set links'}" by auto
  qed
qed

lemma resolve_owns:
  assumes "resolve u ns rid objs links = Inr (objs', links')"
  shows "\<forall>n \<in> set ns. owns u n objs'"
  using assms
proof (induction ns arbitrary: objs links)
  case Nil
  then show ?case by simp
next
  case (Cons n ns)
  from Cons.prems(1) obtain t c objs1 where
    g: "get_or_create u n objs = Inr ((t, c), objs1)" and
    r: "resolve u ns rid objs1 (add rid (row_id t) links) = Inr (objs', links')"
    by (rule resolve_Cons_InrD)
  from get_or_create_row[OF g] resolve_subset[OF r] have "owns u n objs'"
    by (auto simp: owns_def)
  with Cons.IH[OF r] show ?case by simp
qed




lemma fk_replace:
  assumes rep: "replace u names rid objs links = Inr (objs', links')"
    and un: "unique_names objs"
    and fk: "\<forall>l \<in> set links. fst l \<in> rids \<and> snd l \<in> row_id ` set objs"
    and sub: "rids \<subseteq> rids'" "rid \<in> rids'"
  shows "\<forall>l \<in> set links'. fst l \<in> rids' \<and> snd l \<in> row_id ` set objs'"
proof
  fix l assume l: "l \<in> set links'"
  from replace_extends[OF rep] have mono: "row_id ` set objs \<subseteq> row_id ` set objs'" by auto
  show "fst l \<in> rids' \<and> snd l \<in> row_id ` set objs'"
  proof (cases names)
    case None
    with rep have "links' = links" by (simp add: replace_def)
    with l fk sub mono show ?thesis by blast
  next
    case (Some ns)
    note L = replace_links[OF rep[unfolded Some] un]
    from l L have "l \<in> set links \<or> (\<exists>t \<in> set objs'. l = (rid, row_id t))" by auto
    then show ?thesis
    proof
      assume "l \<in> set links"
      with fk sub mono show ?thesis by blast
    next
      assume "\<exists>t \<in> set objs'. l = (rid, row_id t)"
      with sub show ?thesis by auto
    qed
  qed
qed




lemma set_map_replace:
  "set (map (\<lambda>r. if P r then c else r) xs) =
     (if \<exists>r \<in> set xs. P r then {c} else {}) \<union> {r \<in> set xs. \<not> P r}"
  by (induction xs) auto

lemma find_map_replace:
  "\<exists>r \<in> set xs. P r \<Longrightarrow> P c \<Longrightarrow> find P (map (\<lambda>r. if P r then c else r) xs) = Some c"
  by (induction xs) auto

lemma find_snoc:
  "find P (xs @ [c]) = (case find P xs of None \<Rightarrow> (if P c then Some c else None) | Some x \<Rightarrow> Some x)"
  by (induction xs) auto

lemma save_alt:
  "save inst objs =
     (if \<exists>r \<in> set objs. recipe_id r = recipe_id inst
      then map (\<lambda>r. if recipe_id r = recipe_id inst then inst else r) objs
      else objs @ [inst])"
proof -
  have "recipe_id inst \<in> recipe_id ` set objs \<longleftrightarrow> (\<exists>r \<in> set objs. recipe_id r = recipe_id inst)"
    by (simp only: image_iff) (rule bex_cong; (rule refl | rule eq_commute))
  then show ?thesis by (simp only: save_def)
qed

lemma set_save:
  "set (save inst objs) = insert inst {r \<in> set objs. recipe_id r \<noteq> recipe_id inst}"
proof (cases "\<exists>r \<in> set objs. recipe_id r = recipe_id inst")
  case True
  then show ?thesis
    by (simp only: save_alt if_True set_map_replace[where P="\<lambda>r. recipe_id r = recipe_id inst"])
       simp
next
  case False
  then have "{r \<in> set objs. recipe_id r \<noteq> recipe_id inst} = set objs" by blast
  with False show ?thesis by (simp only: save_alt if_False) simp
qed

lemma find_save:
  "find (\<lambda>r. recipe_id r = recipe_id inst) (save inst objs) = Some inst"
proof (cases "\<exists>r \<in> set objs. recipe_id r = recipe_id inst")
  case True
  from find_map_replace[where P="\<lambda>r. recipe_id r = recipe_id inst", OF True refl]
  show ?thesis using True by (simp only: save_alt if_True)
next
  case False
  then have "find (\<lambda>r. recipe_id r = recipe_id inst) objs = None"
    by (simp add: find_None_iff)
  with False show ?thesis by (simp only: save_alt if_False find_snoc) simp
qed

lemma map_recipe_id_save:
  "map recipe_id (save inst objs) =
     (if \<exists>r \<in> set objs. recipe_id r = recipe_id inst then map recipe_id objs
      else map recipe_id objs @ [recipe_id inst])"
proof -
  have "map recipe_id (map (\<lambda>r. if P r then inst else r) xs) = map recipe_id xs"
    if "\<forall>r. P r \<longrightarrow> recipe_id r = recipe_id inst" for P xs
    using that by (induction xs) auto
  from this[of "\<lambda>r. recipe_id r = recipe_id inst" objs] show ?thesis
    by (simp add: save_alt)
qed




lemma replace_new_ids:
  assumes rep: "replace u names rid objs links = Inr (objs', links')"
  obtains new where "objs' = objs @ new" "\<forall>t \<in> set new. row_id t \<notin> row_id ` set objs"
proof -
  from replace_extends[OF rep] obtain new where
    new: "objs' = objs @ new \<and>
     (\<forall>t \<in> set new. row_user t = u \<and> \<not> owns u (row_name t) objs \<and>
        row_id t \<notin> row_id ` set objs \<and> (\<exists>ns. names = Some ns \<and> row_name t \<in> set ns))" ..
  then have "objs' = objs @ new" "\<forall>t \<in> set new. row_id t \<notin> row_id ` set objs" by simp_all
  then show ?thesis by (rule that)
qed

lemma owned_replace:
  assumes rep: "replace u names rid objs links = Inr (objs', links')"
    and un: "unique_names objs" and pk: "distinct (map row_id objs)"
    and fk: "\<forall>l \<in> set links. snd l \<in> row_id ` set objs"
    and own: "owned recipes objs links"
    and cur: "\<forall>t \<in> set objs. (rid, row_id t) \<in> set links \<longrightarrow> row_user t = u"
    and rec: "\<forall>r' \<in> set recipes'.
                (recipe_id r' \<noteq> rid \<and> r' \<in> set recipes) \<or> (recipe_id r' = rid \<and> user r' = u)"
  shows "owned recipes' objs' links'"
  unfolding owned_def
proof (intro ballI impI)
  fix r' t
  assume r': "r' \<in> set recipes'" and t: "t \<in> set objs'"
    and l: "(recipe_id r', row_id t) \<in> set links'"
  from rep obtain new where
    new: "objs' = objs @ new" "\<forall>t \<in> set new. row_id t \<notin> row_id ` set objs"
    by (rule replace_new_ids)
  from rec r' have alt:
    "(recipe_id r' \<noteq> rid \<and> r' \<in> set recipes) \<or> (recipe_id r' = rid \<and> user r' = u)"
    by (rule bspec)
  have old_case: "row_user t = user r'"
    if "r' \<in> set recipes" "t \<in> set objs" "(recipe_id r', row_id t) \<in> set links"
    using own that unfolding owned_def by blast
  show "row_user t = user r'"
  proof (cases names)
    case None
    with rep have eq: "objs' = objs" "links' = links" by (simp_all add: replace_def)
    show ?thesis
    proof (rule disjE[OF alt])
      assume "recipe_id r' \<noteq> rid \<and> r' \<in> set recipes"
      with t l eq show ?thesis by (simp add: old_case)
    next
      assume a: "recipe_id r' = rid \<and> user r' = u"
      with t l eq have "t \<in> set objs" "(rid, row_id t) \<in> set links" by simp_all
      with cur a show ?thesis by simp
    qed
  next
    case (Some ns)
    note L = replace_links[OF rep[unfolded Some] un]
    have pk': "distinct (map row_id objs')" by (rule replace_pk[OF rep pk])
    show ?thesis
    proof (rule disjE[OF alt])
      assume a: "recipe_id r' \<noteq> rid \<and> r' \<in> set recipes"
      with l have old: "(recipe_id r', row_id t) \<in> set links" unfolding L by simp
      from bspec[OF fk old] have "row_id t \<in> row_id ` set objs" by simp
      have "t \<in> set objs"
      proof (rule ccontr)
        assume "t \<notin> set objs"
        with new(1) t have "t \<in> set new" by simp
        with new(2) \<open>row_id t \<in> row_id ` set objs\<close> show False by blast
      qed
      with a old show ?thesis by (simp add: old_case)
    next
      assume a: "recipe_id r' = rid \<and> user r' = u"
      with l have "(rid, row_id t) \<in> {(rid, row_id t) | t.
          t \<in> set objs' \<and> row_user t = u \<and> row_name t \<in> set ns}"
        unfolding L by simp
      then obtain t0 where t0: "row_id t = row_id t0" "t0 \<in> set objs'" "row_user t0 = u"
        by blast
      from pk_eq[OF pk' t t0(2) t0(1)] t0 a show ?thesis by simp
    qed
  qed
qed

lemma update_replace:
  "update u inst vd db =
     (case replace u (vd_tags vd) (recipe_id inst) (Tag_objects db) (recipe_tags db) of
        Inl e \<Rightarrow> Inl e
      | Inr (tobjs, tlinks) \<Rightarrow>
          (case replace u (vd_ingredients vd) (recipe_id inst) (Ingredient_objects db)
                  (recipe_ingredients db) of
             Inl e \<Rightarrow> Inl e
           | Inr (iobjs, ilinks) \<Rightarrow>
               Inr (fold (\<lambda>f i. setattr i f) (vd_attrs vd) inst,
                    \<lparr>Recipe_objects =
                       save (fold (\<lambda>f i. setattr i f) (vd_attrs vd) inst) (Recipe_objects db),
                     Tag_objects = tobjs, Ingredient_objects = iobjs,
                     recipe_tags = tlinks, recipe_ingredients = ilinks\<rparr>)))"
  by (cases db)
     (simp add: update_def replace_def get_or_create_tags_resolve
        get_or_create_ingredients_resolve Let_def
        split: option.splits sum.splits prod.splits)

lemma create_resolve:
  "create d u vd db =
     (let r = (fold (\<lambda>f i. setattr i f) (vd_attrs vd) d)
                \<lparr>recipe_id := fresh_id (map recipe_id (Recipe_objects db))\<rparr>
      in case resolve u (case vd_tags vd of None \<Rightarrow> [] | Some ts \<Rightarrow> ts) (recipe_id r)
                (Tag_objects db) (recipe_tags db) of
           Inl e \<Rightarrow> Inl e
         | Inr (tobjs, tlinks) \<Rightarrow>
             (case resolve u (case vd_ingredients vd of None \<Rightarrow> [] | Some is \<Rightarrow> is)
                     (recipe_id r) (Ingredient_objects db) (recipe_ingredients db) of
                Inl e \<Rightarrow> Inl e
              | Inr (iobjs, ilinks) \<Rightarrow>
                  Inr (r, \<lparr>Recipe_objects = Recipe_objects db @ [r],
                           Tag_objects = tobjs, Ingredient_objects = iobjs,
                           recipe_tags = tlinks, recipe_ingredients = ilinks\<rparr>)))"
  by (cases db)
     (simp add: create_def Recipe_objects_create_def get_or_create_tags_resolve
        get_or_create_ingredients_resolve Let_def
        split: option.splits sum.splits prod.splits)

section \<open>Updates\<close>

lemma wf_example_db: "wf_db example_db"
  by (simp add: wf_db_def example_db_def example_recipe_def other_recipe_def unique_names_def)

lemma owner_inv_example_db: "owner_inv example_db"
  by (simp add: owner_inv_def tags_all_def ingredients_all_def example_db_def
      example_recipe_def other_recipe_def)

lemma wf_empty_db: "wf_db empty_db"
  by (simp add: wf_db_def empty_db_def unique_names_def)

lemma update_succeeds:
  assumes "unique_names (Tag_objects db)" "unique_names (Ingredient_objects db)"
  shows "\<exists>instance' db'. update u inst vd db = Inr (instance', db')"
proof -
  from replace_succeeds[OF assms(1)] obtain tobjs tlinks where
    "replace u (vd_tags vd) (recipe_id inst) (Tag_objects db) (recipe_tags db) =
       Inr (tobjs, tlinks)" by blast
  moreover from replace_succeeds[OF assms(2)] obtain iobjs ilinks where
    "replace u (vd_ingredients vd) (recipe_id inst) (Ingredient_objects db)
       (recipe_ingredients db) = Inr (iobjs, ilinks)" by blast
  ultimately show ?thesis by (simp add: update_replace)
qed

lemma update_InrE:
  assumes "update u inst vd db = Inr (inst', db')"
  obtains tobjs tlinks iobjs ilinks where
    "replace u (vd_tags vd) (recipe_id inst) (Tag_objects db) (recipe_tags db) =
       Inr (tobjs, tlinks)"
    "replace u (vd_ingredients vd) (recipe_id inst) (Ingredient_objects db)
       (recipe_ingredients db) = Inr (iobjs, ilinks)"
    "inst' = fold (\<lambda>f i. setattr i f) (vd_attrs vd) inst"
    "db' = \<lparr>Recipe_objects = save inst' (Recipe_objects db),
            Tag_objects = tobjs, Ingredient_objects = iobjs,
            recipe_tags = tlinks, recipe_ingredients = ilinks\<rparr>"
  using assms unfolding update_replace by (auto split: sum.splits)

text \<open>
  C8. An update whose validated data has neither the tags key nor the ingredients key
  succeeds and leaves both link tables, both tables of rows, and so the tags and the
  ingredients of every recipe, as they were.
\<close>

theorem update_scalars_keeps_associations:
  assumes "vd_tags validated_data = None" and "vd_ingredients validated_data = None"
  shows "\<exists>instance' db'.
           update auth_user instance validated_data db = Inr (instance', db') \<and>
           recipe_tags db' = recipe_tags db \<and>
           recipe_ingredients db' = recipe_ingredients db \<and>
           Tag_objects db' = Tag_objects db \<and>
           Ingredient_objects db' = Ingredient_objects db \<and>
           (\<forall>rid. tags_all db' rid = tags_all db rid \<and>
                  ingredients_all db' rid = ingredients_all db rid)"
  using assms
  by (simp add: update_replace replace_None tags_all_def ingredients_all_def)

theorem update_scalars_keeps_associations_witness:
  "\<exists>instance' db'.
     update 1 example_recipe
       \<lparr>vd_tags = None, vd_ingredients = None, vd_attrs = [Title ''New recipe title'']\<rparr>
       example_db = Inr (instance', db') \<and>
     recipe_tags db' = [(1, 1), (2, 3)] \<and> recipe_ingredients db' = [(1, 1)] \<and>
     tags_all db' 1 = [\<lparr>row_id = 1, row_user = 1, row_name = ''Breakfast''\<rparr>]"
proof -
  from update_scalars_keeps_associations
    [of "\<lparr>vd_tags = None, vd_ingredients = None, vd_attrs = [Title ''New recipe title'']\<rparr>"
        1 example_recipe example_db]
  obtain instance' db' where
    u: "update 1 example_recipe
          \<lparr>vd_tags = None, vd_ingredients = None, vd_attrs = [Title ''New recipe title'']\<rparr>
          example_db = Inr (instance', db')"
    and l: "recipe_tags db' = recipe_tags example_db"
      "recipe_ingredients db' = recipe_ingredients example_db"
    and t: "tags_all db' 1 = tags_all example_db 1"
    by auto
  have "recipe_tags example_db = [(1, 1), (2, 3)]" "recipe_ingredients example_db = [(1, 1)]"
    "tags_all example_db 1 = [\<lparr>row_id = 1, row_user = 1, row_name = ''Breakfast''\<rparr>]"
    by (simp_all add: example_db_def tags_all_def)
  with u l t show ?thesis by simp
qed

lemma getattr_setattr_same: "getattr (setattr r f) (key f) = Some f"
  by (cases f) (simp_all add: getattr_def)

lemma getattr_setattr_other: "k \<noteq> key f \<Longrightarrow> getattr (setattr r f) k = getattr r k"
  by (cases f) (simp_all add: getattr_def)

lemma recipe_id_setattr: "recipe_id (setattr r f) = recipe_id r"
  by (cases f) simp_all

lemma recipe_id_fold_setattr: "recipe_id (fold (\<lambda>f i. setattr i f) fs r) = recipe_id r"
  by (induction fs arbitrary: r) (simp_all add: recipe_id_setattr)

lemma getattr_fold_absent:
  "k \<notin> key ` set fs \<Longrightarrow> getattr (fold (\<lambda>f i. setattr i f) fs r) k = getattr r k"
  by (induction fs arbitrary: r) (simp_all add: getattr_setattr_other)

lemma getattr_fold_present:
  "distinct (map key fs) \<Longrightarrow> f \<in> set fs \<Longrightarrow>
   getattr (fold (\<lambda>f i. setattr i f) fs r) (key f) = Some f"
proof (induction fs arbitrary: r)
  case Nil
  then show ?case by simp
next
  case (Cons a fs)
  show ?case
  proof (cases "f = a")
    case True
    from Cons.prems(1) have "key a \<notin> key ` set fs" by simp
    from getattr_fold_absent[OF this] True show ?thesis
      by (simp add: getattr_setattr_same)
  next
    case False
    with Cons show ?thesis by simp
  qed
qed

text \<open>
  C4. An update on a well-formed database succeeds; every item of the validated data
  (a dictionary, so its keys are distinct) is the value of its attribute on the
  returned instance, every attribute without an item keeps the value it had on the
  instance, the identifier is unchanged, and the returned instance is the stored row.
\<close>

theorem update_sets_present_keeps_absent:
  assumes "wf_db db" and "distinct (map key (vd_attrs validated_data))"
  shows "\<exists>instance' db'.
           update auth_user instance validated_data db = Inr (instance', db') \<and>
           (\<forall>f \<in> set (vd_attrs validated_data). getattr instance' (key f) = Some f) \<and>
           (\<forall>attr. attr \<notin> key ` set (vd_attrs validated_data) \<longrightarrow>
                   getattr instance' attr = getattr instance attr) \<and>
           recipe_id instance' = recipe_id instance \<and>
           find (\<lambda>r. recipe_id r = recipe_id instance) (Recipe_objects db') = Some instance'"
proof -
  from assms(1) have "unique_names (Tag_objects db)" "unique_names (Ingredient_objects db)"
    by (simp_all add: wf_db_def)
  from update_succeeds[OF this] obtain instance' db' where
    u: "update auth_user instance validated_data db = Inr (instance', db')" by blast
  from u obtain tobjs tlinks iobjs ilinks where
    i: "instance' = fold (\<lambda>f i. setattr i f) (vd_attrs validated_data) instance" and
    d: "db' = \<lparr>Recipe_objects = save instance' (Recipe_objects db),
              Tag_objects = tobjs, Ingredient_objects = iobjs,
              recipe_tags = tlinks, recipe_ingredients = ilinks\<rparr>"
    by (rule update_InrE)
  have id: "recipe_id instance' = recipe_id instance"
    by (simp add: i recipe_id_fold_setattr)
  have "find (\<lambda>r. recipe_id r = recipe_id instance') (save instance' (Recipe_objects db)) =
          Some instance'"
    by (rule find_save)
  then have st: "find (\<lambda>r. recipe_id r = recipe_id instance) (Recipe_objects db') = Some instance'"
    by (simp add: d id)
  have p: "\<forall>f \<in> set (vd_attrs validated_data). getattr instance' (key f) = Some f"
    using assms(2) by (simp add: i getattr_fold_present)
  have a: "\<forall>attr. attr \<notin> key ` set (vd_attrs validated_data) \<longrightarrow>
                   getattr instance' attr = getattr instance attr"
    by (simp add: i getattr_fold_absent)
  from u p a id st show ?thesis by blast
qed

theorem update_sets_present_keeps_absent_witness:
  "wf_db example_db \<and> distinct (map key [Title ''New recipe title'', Price 599]) \<and>
   (\<exists>instance' db'.
      update 1 example_recipe
        \<lparr>vd_tags = None, vd_ingredients = None,
         vd_attrs = [Title ''New recipe title'', Price 599]\<rparr> example_db =
        Inr (instance', db') \<and>
      title instance' = ''New recipe title'' \<and> price instance' = 599 \<and>
      link instance' = ''https://example.com/recipe.pdf'' \<and> user instance' = 1 \<and>
      find (\<lambda>r. recipe_id r = 1) (Recipe_objects db') = Some instance')"
proof -
  let ?vd = "\<lparr>vd_tags = None, vd_ingredients = None,
              vd_attrs = [Title ''New recipe title'', Price 599]\<rparr>"
  have h: "distinct (map key (vd_attrs ?vd))" by simp
  from update_sets_present_keeps_absent[OF wf_example_db h, of 1 example_recipe]
  obtain instance' db' where
    u: "update 1 example_recipe ?vd example_db = Inr (instance', db')" and
    p: "\<forall>f \<in> set (vd_attrs ?vd). getattr instance' (key f) = Some f" and
    a: "\<forall>attr. attr \<notin> key ` set (vd_attrs ?vd) \<longrightarrow>
           getattr instance' attr = getattr example_recipe attr" and
    f: "find (\<lambda>r. recipe_id r = recipe_id example_recipe) (Recipe_objects db') = Some instance'"
    by blast
  from p have "getattr instance' ''title'' = Some (Title ''New recipe title'')"
    "getattr instance' ''price'' = Some (Price 599)" by simp_all
  then have 1: "title instance' = ''New recipe title''" "price instance' = 599"
    by (simp_all add: getattr_def)
  from a have "getattr instance' ''link'' = getattr example_recipe ''link''"
    "getattr instance' ''user'' = getattr example_recipe ''user''" by simp_all
  then have 2: "link instance' = ''https://example.com/recipe.pdf''" "user instance' = 1"
    by (simp_all add: getattr_def example_recipe_def)
  from f have 3: "find (\<lambda>r. recipe_id r = 1) (Recipe_objects db') = Some instance'"
    by (simp add: example_recipe_def)
  from wf_example_db u 1 2 3 show ?thesis by simp
qed

lemma replace_replaced:
  assumes rep: "replace u (Some ns) rid objs links = Inr (objs', links')"
    and un: "unique_names objs" and pk: "distinct (map row_id objs)"
  shows "set (filter (\<lambda>t. (rid, row_id t) \<in> set links') objs') =
           {t \<in> set objs'. row_user t = u \<and> row_name t \<in> set ns} \<and>
         (\<forall>n \<in> set ns. owns u n objs') \<and>
         unique_names objs' \<and>
         (\<exists>new. objs' = objs @ new \<and> (\<forall>t \<in> set new. \<not> owns u (row_name t) objs))"
proof -
  have 1: "set (filter (\<lambda>t. (rid, row_id t) \<in> set links') objs') =
           {t \<in> set objs'. row_user t = u \<and> row_name t \<in> set ns}"
    using replace_linked[OF rep un pk] by simp
  have 2: "\<forall>n \<in> set ns. owns u n objs'"
    by (rule resolve_owns[OF rep[unfolded replace_Some]])
  have 3: "unique_names objs'" by (rule replace_unique[OF rep un])
  from replace_extends[OF rep] obtain new where
    "objs' = objs @ new" "\<forall>t \<in> set new. \<not> owns u (row_name t) objs"
    by (elim exE conjE) simp
  then have 4: "\<exists>new. objs' = objs @ new \<and> (\<forall>t \<in> set new. \<not> owns u (row_name t) objs)"
    by (intro exI conjI)
  from 1 2 3 4 show ?thesis by (intro conjI)
qed

text \<open>
  C1. An update on a well-formed database succeeds. When the validated data has the
  tags key with the list \<open>names\<close> (the empty list too), the tags of the recipe
  afterwards are exactly the rows of the requesting user named in the list: every name
  of the list has such a row, one only, and the table is the former one followed by
  rows for names the user did not have. The instance is changed by the scalar items
  alone and saved as such, so with no scalar item it is intact. The same holds for the
  ingredients key, and a key that is absent leaves its table and its links as they were.
\<close>

theorem update_replaces_associations:
  assumes "wf_db db"
  shows "\<exists>instance' db'.
           update auth_user instance validated_data db = Inr (instance', db') \<and>
           (\<forall>names. vd_tags validated_data = Some names \<longrightarrow>
              set (tags_all db' (recipe_id instance)) =
                {t \<in> set (Tag_objects db'). row_user t = auth_user \<and> row_name t \<in> set names} \<and>
              (\<forall>n \<in> set names. owns auth_user n (Tag_objects db')) \<and>
              unique_names (Tag_objects db') \<and>
              (\<exists>new. Tag_objects db' = Tag_objects db @ new \<and>
                 (\<forall>t \<in> set new. \<not> owns auth_user (row_name t) (Tag_objects db)))) \<and>
           (\<forall>names. vd_ingredients validated_data = Some names \<longrightarrow>
              set (ingredients_all db' (recipe_id instance)) =
                {t \<in> set (Ingredient_objects db').
                   row_user t = auth_user \<and> row_name t \<in> set names} \<and>
              (\<forall>n \<in> set names. owns auth_user n (Ingredient_objects db')) \<and>
              unique_names (Ingredient_objects db') \<and>
              (\<exists>new. Ingredient_objects db' = Ingredient_objects db @ new \<and>
                 (\<forall>t \<in> set new. \<not> owns auth_user (row_name t) (Ingredient_objects db)))) \<and>
           (vd_tags validated_data = None \<longrightarrow>
              Tag_objects db' = Tag_objects db \<and> recipe_tags db' = recipe_tags db) \<and>
           (vd_ingredients validated_data = None \<longrightarrow>
              Ingredient_objects db' = Ingredient_objects db \<and>
              recipe_ingredients db' = recipe_ingredients db) \<and>
           instance' = fold (\<lambda>f i. setattr i f) (vd_attrs validated_data) instance \<and>
           Recipe_objects db' = save instance' (Recipe_objects db)"
proof -
  from assms have un: "unique_names (Tag_objects db)" "unique_names (Ingredient_objects db)"
    and pk: "distinct (map row_id (Tag_objects db))"
      "distinct (map row_id (Ingredient_objects db))"
    by (simp_all add: wf_db_def)
  from update_succeeds[OF un] obtain instance' db' where
    u: "update auth_user instance validated_data db = Inr (instance', db')" by blast
  from u obtain tobjs tlinks iobjs ilinks where
    rt: "replace auth_user (vd_tags validated_data) (recipe_id instance) (Tag_objects db)
           (recipe_tags db) = Inr (tobjs, tlinks)" and
    ri: "replace auth_user (vd_ingredients validated_data) (recipe_id instance)
           (Ingredient_objects db) (recipe_ingredients db) = Inr (iobjs, ilinks)" and
    i: "instance' = fold (\<lambda>f i. setattr i f) (vd_attrs validated_data) instance" and
    d: "db' = \<lparr>Recipe_objects = save instance' (Recipe_objects db),
              Tag_objects = tobjs, Ingredient_objects = iobjs,
              recipe_tags = tlinks, recipe_ingredients = ilinks\<rparr>"
    by (rule update_InrE)
  have et: "Tag_objects db' = tobjs" "recipe_tags db' = tlinks" by (simp_all add: d)
  have ei: "Ingredient_objects db' = iobjs" "recipe_ingredients db' = ilinks"
    by (simp_all add: d)
  have t: "\<forall>names. vd_tags validated_data = Some names \<longrightarrow>
              set (tags_all db' (recipe_id instance)) =
                {t \<in> set (Tag_objects db'). row_user t = auth_user \<and> row_name t \<in> set names} \<and>
              (\<forall>n \<in> set names. owns auth_user n (Tag_objects db')) \<and>
              unique_names (Tag_objects db') \<and>
              (\<exists>new. Tag_objects db' = Tag_objects db @ new \<and>
                 (\<forall>t \<in> set new. \<not> owns auth_user (row_name t) (Tag_objects db)))"
  proof (intro allI impI)
    fix names assume "vd_tags validated_data = Some names"
    with rt have "replace auth_user (Some names) (recipe_id instance) (Tag_objects db)
           (recipe_tags db) = Inr (tobjs, tlinks)" by simp
    note R = replace_replaced[OF this un(1) pk(1)]
    show "set (tags_all db' (recipe_id instance)) =
                {t \<in> set (Tag_objects db'). row_user t = auth_user \<and> row_name t \<in> set names} \<and>
              (\<forall>n \<in> set names. owns auth_user n (Tag_objects db')) \<and>
              unique_names (Tag_objects db') \<and>
              (\<exists>new. Tag_objects db' = Tag_objects db @ new \<and>
                 (\<forall>t \<in> set new. \<not> owns auth_user (row_name t) (Tag_objects db)))"
      unfolding tags_all_def et by (rule R)
  qed
  have g: "\<forall>names. vd_ingredients validated_data = Some names \<longrightarrow>
              set (ingredients_all db' (recipe_id instance)) =
                {t \<in> set (Ingredient_objects db').
                   row_user t = auth_user \<and> row_name t \<in> set names} \<and>
              (\<forall>n \<in> set names. owns auth_user n (Ingredient_objects db')) \<and>
              unique_names (Ingredient_objects db') \<and>
              (\<exists>new. Ingredient_objects db' = Ingredient_objects db @ new \<and>
                 (\<forall>t \<in> set new. \<not> owns auth_user (row_name t) (Ingredient_objects db)))"
  proof (intro allI impI)
    fix names assume "vd_ingredients validated_data = Some names"
    with ri have "replace auth_user (Some names) (recipe_id instance) (Ingredient_objects db)
           (recipe_ingredients db) = Inr (iobjs, ilinks)" by simp
    note R = replace_replaced[OF this un(2) pk(2)]
    show "set (ingredients_all db' (recipe_id instance)) =
                {t \<in> set (Ingredient_objects db').
                   row_user t = auth_user \<and> row_name t \<in> set names} \<and>
              (\<forall>n \<in> set names. owns auth_user n (Ingredient_objects db')) \<and>
              unique_names (Ingredient_objects db') \<and>
              (\<exists>new. Ingredient_objects db' = Ingredient_objects db @ new \<and>
                 (\<forall>t \<in> set new. \<not> owns auth_user (row_name t) (Ingredient_objects db)))"
      unfolding ingredients_all_def ei by (rule R)
  qed
  have nt: "vd_tags validated_data = None \<longrightarrow>
              Tag_objects db' = Tag_objects db \<and> recipe_tags db' = recipe_tags db"
    using rt by (auto simp: d replace_None)
  have ni: "vd_ingredients validated_data = None \<longrightarrow>
              Ingredient_objects db' = Ingredient_objects db \<and>
              recipe_ingredients db' = recipe_ingredients db"
    using ri by (auto simp: d replace_None)
  have s: "Recipe_objects db' = save instance' (Recipe_objects db)" by (simp add: d)
  show ?thesis
    by (rule exI[of _ instance'], rule exI[of _ db']) (intro conjI u t g nt ni i s)
qed


theorem update_replaces_associations_witness:
  "wf_db example_db \<and>
   (\<exists>instance' db'.
      update 1 example_recipe
        \<lparr>vd_tags = Some [], vd_ingredients = Some [''Pepper''], vd_attrs = []\<rparr> example_db =
        Inr (instance', db') \<and>
      tags_all db' 1 = [] \<and>
      set (ingredients_all db' 1) =
        {t \<in> set (Ingredient_objects db'). row_user t = 1 \<and> row_name t = ''Pepper''} \<and>
      owns 1 ''Pepper'' (Ingredient_objects db') \<and>
      instance' = example_recipe)"
proof -
  let ?vd = "\<lparr>vd_tags = Some [], vd_ingredients = Some [''Pepper''], vd_attrs = []\<rparr>"
  from update_replaces_associations[OF wf_example_db, of 1 example_recipe ?vd]
  obtain instance' db' where
    u: "update 1 example_recipe ?vd example_db = Inr (instance', db')" and
    t: "\<forall>names. vd_tags ?vd = Some names \<longrightarrow>
          set (tags_all db' (recipe_id example_recipe)) =
            {t \<in> set (Tag_objects db'). row_user t = 1 \<and> row_name t \<in> set names} \<and>
          (\<forall>n \<in> set names. owns 1 n (Tag_objects db')) \<and>
          unique_names (Tag_objects db') \<and>
          (\<exists>new. Tag_objects db' = Tag_objects example_db @ new \<and>
             (\<forall>t \<in> set new. \<not> owns 1 (row_name t) (Tag_objects example_db)))" and
    g: "\<forall>names. vd_ingredients ?vd = Some names \<longrightarrow>
          set (ingredients_all db' (recipe_id example_recipe)) =
            {t \<in> set (Ingredient_objects db'). row_user t = 1 \<and> row_name t \<in> set names} \<and>
          (\<forall>n \<in> set names. owns 1 n (Ingredient_objects db')) \<and>
          unique_names (Ingredient_objects db') \<and>
          (\<exists>new. Ingredient_objects db' = Ingredient_objects example_db @ new \<and>
             (\<forall>t \<in> set new. \<not> owns 1 (row_name t) (Ingredient_objects example_db)))" and
    i: "instance' = fold (\<lambda>f i. setattr i f) (vd_attrs ?vd) example_recipe"
    by (elim exE conjE)
  have id: "recipe_id example_recipe = 1" by (simp add: example_recipe_def)
  from t have "set (tags_all db' 1) =
      {t \<in> set (Tag_objects db'). row_user t = 1 \<and> row_name t \<in> set []}"
    unfolding id by simp
  then have 1: "tags_all db' 1 = []" by simp
  from g have 2: "set (ingredients_all db' 1) =
      {t \<in> set (Ingredient_objects db'). row_user t = 1 \<and> row_name t = ''Pepper''}"
    and 3: "owns 1 ''Pepper'' (Ingredient_objects db')"
    unfolding id by simp_all
  from i have 4: "instance' = example_recipe" by simp
  show ?thesis
    by (rule conjI[OF wf_example_db], rule exI[of _ instance'], rule exI[of _ db'])
       (intro conjI u 1 2 3 4)
qed

section \<open>Rows are kept\<close>

lemma create_InrE:
  assumes "create d u vd db = Inr (recipe, db')"
  obtains tobjs tlinks iobjs ilinks where
    "recipe = (fold (\<lambda>f i. setattr i f) (vd_attrs vd) d)
                \<lparr>recipe_id := fresh_id (map recipe_id (Recipe_objects db))\<rparr>"
    "resolve u (case vd_tags vd of None \<Rightarrow> [] | Some ts \<Rightarrow> ts) (recipe_id recipe)
       (Tag_objects db) (recipe_tags db) = Inr (tobjs, tlinks)"
    "resolve u (case vd_ingredients vd of None \<Rightarrow> [] | Some is \<Rightarrow> is) (recipe_id recipe)
       (Ingredient_objects db) (recipe_ingredients db) = Inr (iobjs, ilinks)"
    "db' = \<lparr>Recipe_objects = Recipe_objects db @ [recipe],
            Tag_objects = tobjs, Ingredient_objects = iobjs,
            recipe_tags = tlinks, recipe_ingredients = ilinks\<rparr>"
  using assms unfolding create_resolve Let_def by (auto split: sum.splits)

lemma create_succeeds:
  assumes "unique_names (Tag_objects db)" "unique_names (Ingredient_objects db)"
  shows "\<exists>recipe db'. create d u vd db = Inr (recipe, db')"
proof -
  let ?r = "(fold (\<lambda>f i. setattr i f) (vd_attrs vd) d)
                \<lparr>recipe_id := fresh_id (map recipe_id (Recipe_objects db))\<rparr>"
  from resolve_succeeds[OF assms(1)] obtain tobjs tlinks where
    "resolve u (case vd_tags vd of None \<Rightarrow> [] | Some ts \<Rightarrow> ts) (recipe_id ?r)
       (Tag_objects db) (recipe_tags db) = Inr (tobjs, tlinks)" by blast
  moreover from resolve_succeeds[OF assms(2)] obtain iobjs ilinks where
    "resolve u (case vd_ingredients vd of None \<Rightarrow> [] | Some is \<Rightarrow> is) (recipe_id ?r)
       (Ingredient_objects db) (recipe_ingredients db) = Inr (iobjs, ilinks)" by blast
  ultimately show ?thesis by (simp add: create_resolve Let_def)
qed

lemma resolve_prefix:
  assumes "resolve u ns rid objs links = Inr (objs', links')"
  shows "\<exists>new. objs' = objs @ new"
  using resolve_extends[OF assms] by (elim exE conjE) (rule exI)

lemma replace_prefix:
  assumes "replace u names rid objs links = Inr (objs', links')"
  shows "\<exists>new. objs' = objs @ new"
  using replace_extends[OF assms] by (elim exE conjE) (rule exI)

text \<open>
  C10. Whenever an update or a create returns, the table of tags and the table of
  ingredients afterwards are the former tables followed by new rows: no row is deleted
  or changed, also none that lost its link to the recipe. On a well-formed database
  both operations return.
\<close>

theorem rows_are_never_deleted:
  "(\<forall>instance' db'. update auth_user instance validated_data db = Inr (instance', db') \<longrightarrow>
      (\<exists>new. Tag_objects db' = Tag_objects db @ new) \<and>
      (\<exists>new. Ingredient_objects db' = Ingredient_objects db @ new)) \<and>
   (\<forall>recipe db'. create defaults auth_user validated_data db = Inr (recipe, db') \<longrightarrow>
      (\<exists>new. Tag_objects db' = Tag_objects db @ new) \<and>
      (\<exists>new. Ingredient_objects db' = Ingredient_objects db @ new)) \<and>
   (wf_db db \<longrightarrow>
      (\<exists>instance' db'. update auth_user instance validated_data db = Inr (instance', db')) \<and>
      (\<exists>recipe db'. create defaults auth_user validated_data db = Inr (recipe, db')))"
proof (intro conjI allI impI)
  fix instance' db'
  assume "update auth_user instance validated_data db = Inr (instance', db')"
  then obtain tobjs tlinks iobjs ilinks where
    rt: "replace auth_user (vd_tags validated_data) (recipe_id instance) (Tag_objects db)
           (recipe_tags db) = Inr (tobjs, tlinks)" and
    ri: "replace auth_user (vd_ingredients validated_data) (recipe_id instance)
           (Ingredient_objects db) (recipe_ingredients db) = Inr (iobjs, ilinks)" and
    d: "db' = \<lparr>Recipe_objects = save instance' (Recipe_objects db),
              Tag_objects = tobjs, Ingredient_objects = iobjs,
              recipe_tags = tlinks, recipe_ingredients = ilinks\<rparr>"
    by (rule update_InrE)
  from replace_prefix[OF rt] show "\<exists>new. Tag_objects db' = Tag_objects db @ new"
    by (simp add: d)
  from replace_prefix[OF ri] show "\<exists>new. Ingredient_objects db' = Ingredient_objects db @ new"
    by (simp add: d)
next
  fix recipe db'
  assume "create defaults auth_user validated_data db = Inr (recipe, db')"
  then obtain tobjs tlinks iobjs ilinks where
    rt: "resolve auth_user (case vd_tags validated_data of None \<Rightarrow> [] | Some ts \<Rightarrow> ts)
           (recipe_id recipe) (Tag_objects db) (recipe_tags db) = Inr (tobjs, tlinks)" and
    ri: "resolve auth_user (case vd_ingredients validated_data of None \<Rightarrow> [] | Some is \<Rightarrow> is)
           (recipe_id recipe) (Ingredient_objects db) (recipe_ingredients db) =
           Inr (iobjs, ilinks)" and
    d: "db' = \<lparr>Recipe_objects = Recipe_objects db @ [recipe],
              Tag_objects = tobjs, Ingredient_objects = iobjs,
              recipe_tags = tlinks, recipe_ingredients = ilinks\<rparr>"
    by (rule create_InrE)
  from resolve_prefix[OF rt] show "\<exists>new. Tag_objects db' = Tag_objects db @ new"
    by (simp add: d)
  from resolve_prefix[OF ri] show "\<exists>new. Ingredient_objects db' = Ingredient_objects db @ new"
    by (simp add: d)
next
  assume "wf_db db"
  then have un: "unique_names (Tag_objects db)" "unique_names (Ingredient_objects db)"
    by (simp_all add: wf_db_def)
  from update_succeeds[OF un]
  show "\<exists>instance' db'. update auth_user instance validated_data db = Inr (instance', db')" .
  from create_succeeds[OF un]
  show "\<exists>recipe db'. create defaults auth_user validated_data db = Inr (recipe, db')" .
qed

lemma update_clear_tags_example:
  "update 1 example_recipe \<lparr>vd_tags = Some [], vd_ingredients = None, vd_attrs = []\<rparr> example_db =
     Inr (example_recipe,
          \<lparr>Recipe_objects = [example_recipe, other_recipe],
           Tag_objects =
             [\<lparr>row_id = 1, row_user = 1, row_name = ''Breakfast''\<rparr>,
              \<lparr>row_id = 2, row_user = 1, row_name = ''Indian''\<rparr>,
              \<lparr>row_id = 3, row_user = 2, row_name = ''Lunch''\<rparr>],
           Ingredient_objects = [\<lparr>row_id = 1, row_user = 1, row_name = ''Salt''\<rparr>],
           recipe_tags = [(2, 3)],
           recipe_ingredients = [(1, 1)]\<rparr>)"
  by (simp add: update_def example_db_def clear_def save_def example_recipe_def
      other_recipe_def Let_def)

theorem rows_are_never_deleted_witness:
  "wf_db example_db \<and>
   (\<exists>db'. update 1 example_recipe
             \<lparr>vd_tags = Some [], vd_ingredients = None, vd_attrs = []\<rparr> example_db =
             Inr (example_recipe, db') \<and>
          tags_all db' 1 = [] \<and>
          (\<exists>new. Tag_objects db' = Tag_objects example_db @ new) \<and>
          (\<exists>new. Ingredient_objects db' = Ingredient_objects example_db @ new))"
proof -
  let ?vd = "\<lparr>vd_tags = Some [], vd_ingredients = None, vd_attrs = []\<rparr>"
  let ?db' = "\<lparr>Recipe_objects = [example_recipe, other_recipe],
           Tag_objects =
             [\<lparr>row_id = 1, row_user = 1, row_name = ''Breakfast''\<rparr>,
              \<lparr>row_id = 2, row_user = 1, row_name = ''Indian''\<rparr>,
              \<lparr>row_id = 3, row_user = 2, row_name = ''Lunch''\<rparr>],
           Ingredient_objects = [\<lparr>row_id = 1, row_user = 1, row_name = ''Salt''\<rparr>],
           recipe_tags = [(2, 3)],
           recipe_ingredients = [(1, 1)]\<rparr>"
  note u = update_clear_tags_example
  from rows_are_never_deleted[of 1 example_recipe ?vd example_db] u
  have p: "(\<exists>new. Tag_objects ?db' = Tag_objects example_db @ new) \<and>
      (\<exists>new. Ingredient_objects ?db' = Ingredient_objects example_db @ new)"
    by blast
  have t: "tags_all ?db' 1 = []" by (simp add: tags_all_def)
  from wf_example_db u p t show ?thesis by blast
qed

section \<open>Creates\<close>

lemma fresh_id_notin: "fresh_id ids \<notin> set ids"
  using fresh_id_greater[of "fresh_id ids" ids] by blast

lemma wf_db_fresh_unlinked:
  assumes "wf_db db"
  shows "\<forall>l \<in> set (recipe_tags db). fst l \<noteq> fresh_id (map recipe_id (Recipe_objects db))"
    and "\<forall>l \<in> set (recipe_ingredients db).
           fst l \<noteq> fresh_id (map recipe_id (Recipe_objects db))"
proof -
  have n: "fresh_id (map recipe_id (Recipe_objects db)) \<notin> recipe_id ` set (Recipe_objects db)"
    using fresh_id_notin[of "map recipe_id (Recipe_objects db)"] by simp
  from assms have "\<forall>l \<in> set (recipe_tags db). fst l \<in> recipe_id ` set (Recipe_objects db)"
    "\<forall>l \<in> set (recipe_ingredients db). fst l \<in> recipe_id ` set (Recipe_objects db)"
    by (simp_all add: wf_db_def)
  with n show "\<forall>l \<in> set (recipe_tags db).
      fst l \<noteq> fresh_id (map recipe_id (Recipe_objects db))"
    "\<forall>l \<in> set (recipe_ingredients db).
           fst l \<noteq> fresh_id (map recipe_id (Recipe_objects db))"
    by metis+
qed

text \<open>
  On a well-formed database a create returns, and its two loops are those of an update
  that replaces both lists: the new recipe has no link yet.
\<close>

lemma create_wfE:
  assumes "wf_db db"
  obtains recipe db' tobjs tlinks iobjs ilinks where
    "create d u vd db = Inr (recipe, db')"
    "recipe = (fold (\<lambda>f i. setattr i f) (vd_attrs vd) d)
                \<lparr>recipe_id := fresh_id (map recipe_id (Recipe_objects db))\<rparr>"
    "replace u (Some (case vd_tags vd of None \<Rightarrow> [] | Some ts \<Rightarrow> ts)) (recipe_id recipe)
       (Tag_objects db) (recipe_tags db) = Inr (tobjs, tlinks)"
    "replace u (Some (case vd_ingredients vd of None \<Rightarrow> [] | Some is \<Rightarrow> is))
       (recipe_id recipe) (Ingredient_objects db) (recipe_ingredients db) =
       Inr (iobjs, ilinks)"
    "db' = \<lparr>Recipe_objects = Recipe_objects db @ [recipe],
            Tag_objects = tobjs, Ingredient_objects = iobjs,
            recipe_tags = tlinks, recipe_ingredients = ilinks\<rparr>"
proof -
  from assms have un: "unique_names (Tag_objects db)" "unique_names (Ingredient_objects db)"
    by (simp_all add: wf_db_def)
  from create_succeeds[OF un] obtain recipe db' where
    c: "create d u vd db = Inr (recipe, db')" by blast
  from c obtain tobjs tlinks iobjs ilinks where
    r: "recipe = (fold (\<lambda>f i. setattr i f) (vd_attrs vd) d)
                \<lparr>recipe_id := fresh_id (map recipe_id (Recipe_objects db))\<rparr>" and
    rt: "resolve u (case vd_tags vd of None \<Rightarrow> [] | Some ts \<Rightarrow> ts) (recipe_id recipe)
       (Tag_objects db) (recipe_tags db) = Inr (tobjs, tlinks)" and
    ri: "resolve u (case vd_ingredients vd of None \<Rightarrow> [] | Some is \<Rightarrow> is) (recipe_id recipe)
       (Ingredient_objects db) (recipe_ingredients db) = Inr (iobjs, ilinks)" and
    d: "db' = \<lparr>Recipe_objects = Recipe_objects db @ [recipe],
            Tag_objects = tobjs, Ingredient_objects = iobjs,
            recipe_tags = tlinks, recipe_ingredients = ilinks\<rparr>"
    by (rule create_InrE)
  have id: "recipe_id recipe = fresh_id (map recipe_id (Recipe_objects db))"
    by (simp add: r)
  from wf_db_fresh_unlinked[OF assms]
  have "clear (recipe_id recipe) (recipe_tags db) = recipe_tags db"
    "clear (recipe_id recipe) (recipe_ingredients db) = recipe_ingredients db"
    unfolding id by (simp_all add: clear_none)
  with rt ri have p:
    "replace u (Some (case vd_tags vd of None \<Rightarrow> [] | Some ts \<Rightarrow> ts)) (recipe_id recipe)
       (Tag_objects db) (recipe_tags db) = Inr (tobjs, tlinks)"
    "replace u (Some (case vd_ingredients vd of None \<Rightarrow> [] | Some is \<Rightarrow> is))
       (recipe_id recipe) (Ingredient_objects db) (recipe_ingredients db) =
       Inr (iobjs, ilinks)"
    by (simp_all add: replace_Some)
  show ?thesis by (rule that[OF c r p d])
qed

text \<open>Every name of a resolved list has its row among the linked rows.\<close>

lemma resolved_entries:
  assumes rep: "replace u (Some ns) rid objs links = Inr (objs', links')"
    and un: "unique_names objs" and pk: "distinct (map row_id objs)"
  shows "\<forall>n \<in> set ns. \<exists>t \<in> set (filter (\<lambda>t. (rid, row_id t) \<in> set links') objs').
           row_user t = u \<and> row_name t = n \<and> (t \<in> set objs \<longleftrightarrow> owns u n objs)"
proof
  fix n assume n: "n \<in> set ns"
  from replace_replaced[OF rep un pk] obtain new where
    l: "set (filter (\<lambda>t. (rid, row_id t) \<in> set links') objs') =
           {t \<in> set objs'. row_user t = u \<and> row_name t \<in> set ns}" and
    o: "\<forall>n \<in> set ns. owns u n objs'" and
    e: "objs' = objs @ new" and
    m: "\<forall>t \<in> set new. \<not> owns u (row_name t) objs"
    by (elim exE conjE)
  from o n obtain t where t: "t \<in> set objs'" "row_user t = u" "row_name t = n"
    unfolding owns_def by blast
  with n l have 1: "t \<in> set (filter (\<lambda>t. (rid, row_id t) \<in> set links') objs')" by blast
  have 2: "t \<in> set objs \<longleftrightarrow> owns u n objs"
  proof
    assume "t \<in> set objs"
    with t show "owns u n objs" unfolding owns_def by blast
  next
    assume ow: "owns u n objs"
    show "t \<in> set objs"
    proof (rule ccontr)
      assume "t \<notin> set objs"
      with t(1) e have "t \<in> set new" by simp
      with m t(3) ow show False by blast
    qed
  qed
  from 1 2 t show "\<exists>t \<in> set (filter (\<lambda>t. (rid, row_id t) \<in> set links') objs').
           row_user t = u \<and> row_name t = n \<and> (t \<in> set objs \<longleftrightarrow> owns u n objs)"
    by blast
qed

text \<open>
  C2. A create on a well-formed database returns a recipe that is a new row of the
  recipes. For every entry of the tags list there is a tag of the new recipe owned by
  the authenticated user and carrying the entry's name; it is a row of the former table
  exactly when the user had a row of that name (otherwise it was created). The same
  holds for every entry of the ingredients list.
\<close>

theorem create_resolves_every_entry:
  assumes "wf_db db"
  shows "\<exists>recipe db'.
           create defaults auth_user validated_data db = Inr (recipe, db') \<and>
           recipe \<in> set (Recipe_objects db') \<and>
           recipe_id recipe \<notin> recipe_id ` set (Recipe_objects db) \<and>
           (\<forall>n \<in> set (case vd_tags validated_data of None \<Rightarrow> [] | Some ts \<Rightarrow> ts).
              \<exists>t \<in> set (tags_all db' (recipe_id recipe)).
                row_user t = auth_user \<and> row_name t = n \<and>
                (t \<in> set (Tag_objects db) \<longleftrightarrow> owns auth_user n (Tag_objects db))) \<and>
           (\<forall>n \<in> set (case vd_ingredients validated_data of None \<Rightarrow> [] | Some is \<Rightarrow> is).
              \<exists>t \<in> set (ingredients_all db' (recipe_id recipe)).
                row_user t = auth_user \<and> row_name t = n \<and>
                (t \<in> set (Ingredient_objects db) \<longleftrightarrow>
                   owns auth_user n (Ingredient_objects db)))"
proof -
  from assms have un: "unique_names (Tag_objects db)" "unique_names (Ingredient_objects db)"
    and pk: "distinct (map row_id (Tag_objects db))"
      "distinct (map row_id (Ingredient_objects db))"
    by (simp_all add: wf_db_def)
  from assms obtain recipe db' tobjs tlinks iobjs ilinks where
    c: "create defaults auth_user validated_data db = Inr (recipe, db')" and
    r: "recipe = (fold (\<lambda>f i. setattr i f) (vd_attrs validated_data) defaults)
                \<lparr>recipe_id := fresh_id (map recipe_id (Recipe_objects db))\<rparr>" and
    rt: "replace auth_user (Some (case vd_tags validated_data of None \<Rightarrow> [] | Some ts \<Rightarrow> ts))
           (recipe_id recipe) (Tag_objects db) (recipe_tags db) = Inr (tobjs, tlinks)" and
    ri: "replace auth_user
           (Some (case vd_ingredients validated_data of None \<Rightarrow> [] | Some is \<Rightarrow> is))
           (recipe_id recipe) (Ingredient_objects db) (recipe_ingredients db) =
           Inr (iobjs, ilinks)" and
    d: "db' = \<lparr>Recipe_objects = Recipe_objects db @ [recipe],
            Tag_objects = tobjs, Ingredient_objects = iobjs,
            recipe_tags = tlinks, recipe_ingredients = ilinks\<rparr>"
    by (rule create_wfE)
  have et: "Tag_objects db' = tobjs" "recipe_tags db' = tlinks" by (simp_all add: d)
  have ei: "Ingredient_objects db' = iobjs" "recipe_ingredients db' = ilinks"
    by (simp_all add: d)
  have 1: "recipe \<in> set (Recipe_objects db')" by (simp add: d)
  have "recipe_id recipe = fresh_id (map recipe_id (Recipe_objects db))" by (simp add: r)
  with fresh_id_notin[of "map recipe_id (Recipe_objects db)"]
  have 2: "recipe_id recipe \<notin> recipe_id ` set (Recipe_objects db)" by simp
  have 3: "\<forall>n \<in> set (case vd_tags validated_data of None \<Rightarrow> [] | Some ts \<Rightarrow> ts).
              \<exists>t \<in> set (tags_all db' (recipe_id recipe)).
                row_user t = auth_user \<and> row_name t = n \<and>
                (t \<in> set (Tag_objects db) \<longleftrightarrow> owns auth_user n (Tag_objects db))"
    unfolding tags_all_def et by (rule resolved_entries[OF rt un(1) pk(1)])
  have 4: "\<forall>n \<in> set (case vd_ingredients validated_data of None \<Rightarrow> [] | Some is \<Rightarrow> is).
              \<exists>t \<in> set (ingredients_all db' (recipe_id recipe)).
                row_user t = auth_user \<and> row_name t = n \<and>
                (t \<in> set (Ingredient_objects db) \<longleftrightarrow>
                   owns auth_user n (Ingredient_objects db))"
    unfolding ingredients_all_def ei by (rule resolved_entries[OF ri un(2) pk(2)])
  show ?thesis
    by (rule exI[of _ recipe], rule exI[of _ db']) (intro conjI c 1 2 3 4)
qed


theorem create_resolves_every_entry_witness:
  "wf_db example_db \<and>
   (\<exists>recipe db'.
      create example_defaults 1
        \<lparr>vd_tags = Some [''Indian'', ''Dinner''], vd_ingredients = None,
         vd_attrs = [Title ''Pongal'', User 1]\<rparr> example_db = Inr (recipe, db') \<and>
      (\<exists>t \<in> set (tags_all db' (recipe_id recipe)).
         row_user t = 1 \<and> row_name t = ''Indian'' \<and> t \<in> set (Tag_objects example_db)) \<and>
      (\<exists>t \<in> set (tags_all db' (recipe_id recipe)).
         row_user t = 1 \<and> row_name t = ''Dinner'' \<and> t \<notin> set (Tag_objects example_db)))"
proof -
  let ?vd = "\<lparr>vd_tags = Some [''Indian'', ''Dinner''], vd_ingredients = None,
              vd_attrs = [Title ''Pongal'', User 1]\<rparr>"
  from create_resolves_every_entry[OF wf_example_db, of example_defaults 1 ?vd]
  obtain recipe db' where
    c: "create example_defaults 1 ?vd example_db = Inr (recipe, db')" and
    t: "\<forall>n \<in> set (case vd_tags ?vd of None \<Rightarrow> [] | Some ts \<Rightarrow> ts).
          \<exists>t \<in> set (tags_all db' (recipe_id recipe)).
            row_user t = 1 \<and> row_name t = n \<and>
            (t \<in> set (Tag_objects example_db) \<longleftrightarrow> owns 1 n (Tag_objects example_db))"
    by (elim exE conjE)
  have o: "owns 1 ''Indian'' (Tag_objects example_db)"
    "\<not> owns 1 ''Dinner'' (Tag_objects example_db)"
    by (simp_all add: owns_def example_db_def)
  from t have "\<exists>t \<in> set (tags_all db' (recipe_id recipe)).
            row_user t = 1 \<and> row_name t = ''Indian'' \<and>
            (t \<in> set (Tag_objects example_db) \<longleftrightarrow> owns 1 ''Indian'' (Tag_objects example_db))"
    by simp
  with o(1) have 1: "\<exists>t \<in> set (tags_all db' (recipe_id recipe)).
         row_user t = 1 \<and> row_name t = ''Indian'' \<and> t \<in> set (Tag_objects example_db)"
    by blast
  from t have "\<exists>t \<in> set (tags_all db' (recipe_id recipe)).
            row_user t = 1 \<and> row_name t = ''Dinner'' \<and>
            (t \<in> set (Tag_objects example_db) \<longleftrightarrow> owns 1 ''Dinner'' (Tag_objects example_db))"
    by simp
  with o(2) have 2: "\<exists>t \<in> set (tags_all db' (recipe_id recipe)).
         row_user t = 1 \<and> row_name t = ''Dinner'' \<and> t \<notin> set (Tag_objects example_db)"
    by blast
  show ?thesis
    by (rule conjI[OF wf_example_db], rule exI[of _ recipe], rule exI[of _ db'])
       (intro conjI c 1 2)
qed

text \<open>What a create does to the tags, on a well-formed database.\<close>

lemma create_tags:
  assumes "wf_db db" and "vd_tags vd = Some names"
  obtains recipe db' new where
    "create d u vd db = Inr (recipe, db')"
    "Tag_objects db' = Tag_objects db @ new"
    "unique_names (Tag_objects db')"
    "set (tags_all db' (recipe_id recipe)) =
       {t \<in> set (Tag_objects db'). row_user t = u \<and> row_name t \<in> set names}"
    "\<forall>t \<in> set new. row_user t = u \<and> row_name t \<in> set names \<and>
       \<not> owns u (row_name t) (Tag_objects db)"
    "\<forall>n \<in> set names. owns u n (Tag_objects db')"
    "length new = card {n \<in> set names. \<not> owns u n (Tag_objects db)}"
proof -
  from assms(1) have un: "unique_names (Tag_objects db)"
    and pk: "distinct (map row_id (Tag_objects db))"
    by (simp_all add: wf_db_def)
  from assms(1) obtain recipe db' tobjs tlinks iobjs ilinks where
    c: "create d u vd db = Inr (recipe, db')" and
    rt: "replace u (Some (case vd_tags vd of None \<Rightarrow> [] | Some ts \<Rightarrow> ts))
           (recipe_id recipe) (Tag_objects db) (recipe_tags db) = Inr (tobjs, tlinks)" and
    d: "db' = \<lparr>Recipe_objects = Recipe_objects db @ [recipe],
            Tag_objects = tobjs, Ingredient_objects = iobjs,
            recipe_tags = tlinks, recipe_ingredients = ilinks\<rparr>"
    by (rule create_wfE)
  from rt assms(2) have rep: "replace u (Some names) (recipe_id recipe) (Tag_objects db)
      (recipe_tags db) = Inr (tobjs, tlinks)" by simp
  have et: "Tag_objects db' = tobjs" "recipe_tags db' = tlinks" by (simp_all add: d)
  from replace_extends[OF rep] obtain new where
    e: "tobjs = Tag_objects db @ new" and
    n: "\<forall>t \<in> set new. row_user t = u \<and> \<not> owns u (row_name t) (Tag_objects db) \<and>
        row_id t \<notin> row_id ` set (Tag_objects db) \<and>
        (\<exists>ns. Some names = Some ns \<and> row_name t \<in> set ns)"
    by (elim exE conjE)
  from n have 5: "\<forall>t \<in> set new. row_user t = u \<and> row_name t \<in> set names \<and>
       \<not> owns u (row_name t) (Tag_objects db)" by simp
  from replace_replaced[OF rep un pk] have
    4: "set (tags_all db' (recipe_id recipe)) =
       {t \<in> set (Tag_objects db'). row_user t = u \<and> row_name t \<in> set names}" and
    6: "\<forall>n \<in> set names. owns u n (Tag_objects db')" and
    3: "unique_names (Tag_objects db')"
    unfolding tags_all_def et by simp_all
  from resolve_count[OF rep[unfolded replace_Some]] e
  have 7: "length new = card {n \<in> set names. \<not> owns u n (Tag_objects db)}" by simp
  from e have 2: "Tag_objects db' = Tag_objects db @ new" by (simp add: et)
  show ?thesis by (rule that[OF c 2 3 4 5 6 7])
qed

text \<open>
  C7. A create on a well-formed database with the tags list \<open>names\<close> returns; the
  table of tags afterwards is the former table, unchanged, followed by new rows, and it
  has one row per user and name. Every former row of the user named in the list is a
  tag of the new recipe (the row itself, not a copy); every new row belongs to the
  user, carries a name of the list the user had no row for, and is a tag of the new
  recipe; every name of the list the user had no row for has a new row.
\<close>

theorem create_reuses_existing_creates_missing:
  assumes "wf_db db" and "vd_tags validated_data = Some names"
  shows "\<exists>recipe db' new.
           create defaults auth_user validated_data db = Inr (recipe, db') \<and>
           Tag_objects db' = Tag_objects db @ new \<and>
           unique_names (Tag_objects db') \<and>
           (\<forall>t \<in> set (Tag_objects db).
              row_user t = auth_user \<and> row_name t \<in> set names \<longrightarrow>
              t \<in> set (tags_all db' (recipe_id recipe))) \<and>
           (\<forall>t \<in> set new.
              row_user t = auth_user \<and> row_name t \<in> set names \<and>
              \<not> owns auth_user (row_name t) (Tag_objects db) \<and>
              t \<in> set (tags_all db' (recipe_id recipe))) \<and>
           (\<forall>n \<in> set names. \<not> owns auth_user n (Tag_objects db) \<longrightarrow> owns auth_user n new)"
proof -
  from assms obtain recipe db' new where
    c: "create defaults auth_user validated_data db = Inr (recipe, db')" and
    e: "Tag_objects db' = Tag_objects db @ new" and
    u: "unique_names (Tag_objects db')" and
    l: "set (tags_all db' (recipe_id recipe)) =
       {t \<in> set (Tag_objects db'). row_user t = auth_user \<and> row_name t \<in> set names}" and
    n: "\<forall>t \<in> set new. row_user t = auth_user \<and> row_name t \<in> set names \<and>
       \<not> owns auth_user (row_name t) (Tag_objects db)" and
    o: "\<forall>n \<in> set names. owns auth_user n (Tag_objects db')"
    by (rule create_tags)
  have 1: "\<forall>t \<in> set (Tag_objects db).
              row_user t = auth_user \<and> row_name t \<in> set names \<longrightarrow>
              t \<in> set (tags_all db' (recipe_id recipe))"
    unfolding l e by simp
  have 2: "\<forall>t \<in> set new.
              row_user t = auth_user \<and> row_name t \<in> set names \<and>
              \<not> owns auth_user (row_name t) (Tag_objects db) \<and>
              t \<in> set (tags_all db' (recipe_id recipe))"
    using n unfolding l e by simp
  have 3: "\<forall>n \<in> set names. \<not> owns auth_user n (Tag_objects db) \<longrightarrow> owns auth_user n new"
    using o unfolding e owns_append by blast
  show ?thesis
    by (rule exI[of _ recipe], rule exI[of _ db'], rule exI[of _ new])
       (intro conjI c e u 1 2 3)
qed

theorem create_reuses_existing_creates_missing_witness:
  "wf_db example_db \<and>
   (\<exists>recipe db' new.
      create example_defaults 1
        \<lparr>vd_tags = Some [''Indian'', ''Breakfast'', ''Dinner''], vd_ingredients = None,
         vd_attrs = [Title ''Pongal'', User 1]\<rparr> example_db = Inr (recipe, db') \<and>
      Tag_objects db' = Tag_objects example_db @ new \<and>
      \<lparr>row_id = 2, row_user = 1, row_name = ''Indian''\<rparr> \<in> set (tags_all db' (recipe_id recipe)) \<and>
      owns 1 ''Dinner'' new)"
proof -
  let ?vd = "\<lparr>vd_tags = Some [''Indian'', ''Breakfast'', ''Dinner''], vd_ingredients = None,
              vd_attrs = [Title ''Pongal'', User 1]\<rparr>"
  have h: "vd_tags ?vd = Some [''Indian'', ''Breakfast'', ''Dinner'']" by simp
  from create_reuses_existing_creates_missing[OF wf_example_db h, of example_defaults 1]
  obtain recipe db' new where
    c: "create example_defaults 1 ?vd example_db = Inr (recipe, db')" and
    e: "Tag_objects db' = Tag_objects example_db @ new" and
    x: "\<forall>t \<in> set (Tag_objects example_db).
          row_user t = 1 \<and> row_name t \<in> set [''Indian'', ''Breakfast'', ''Dinner''] \<longrightarrow>
          t \<in> set (tags_all db' (recipe_id recipe))" and
    m: "\<forall>n \<in> set [''Indian'', ''Breakfast'', ''Dinner''].
          \<not> owns 1 n (Tag_objects example_db) \<longrightarrow> owns 1 n new"
    by (elim exE conjE)
  have "\<lparr>row_id = 2, row_user = 1, row_name = ''Indian''\<rparr> \<in> set (Tag_objects example_db)"
    by (simp add: example_db_def)
  with x have 1: "\<lparr>row_id = 2, row_user = 1, row_name = ''Indian''\<rparr> \<in>
      set (tags_all db' (recipe_id recipe))" by force
  have "\<not> owns 1 ''Dinner'' (Tag_objects example_db)"
    by (simp add: owns_def example_db_def)
  with m have 2: "owns 1 ''Dinner'' new" by simp
  show ?thesis
    by (rule conjI[OF wf_example_db], rule exI[of _ recipe], rule exI[of _ db'],
        rule exI[of _ new]) (intro conjI c e 1 2)
qed

text \<open>
  C6, as amended. A create on a well-formed database with a tags list none of whose
  names the user has a row for returns, and appends to the table of tags as many new
  rows as the list has distinct names; each is owned by the creating user, carries a
  name of the list and is a tag of the new recipe.
\<close>

theorem create_new_tags_one_row_per_distinct_name:
  assumes "wf_db db" and "vd_tags validated_data = Some names"
    and "\<forall>n \<in> set names. \<not> owns auth_user n (Tag_objects db)"
  shows "\<exists>recipe db' new.
           create defaults auth_user validated_data db = Inr (recipe, db') \<and>
           Tag_objects db' = Tag_objects db @ new \<and>
           length new = card (set names) \<and>
           (\<forall>t \<in> set new.
              row_user t = auth_user \<and> row_name t \<in> set names \<and>
              t \<in> set (tags_all db' (recipe_id recipe)))"
proof -
  from assms(1,2) obtain recipe db' new where
    c: "create defaults auth_user validated_data db = Inr (recipe, db')" and
    e: "Tag_objects db' = Tag_objects db @ new" and
    l: "set (tags_all db' (recipe_id recipe)) =
       {t \<in> set (Tag_objects db'). row_user t = auth_user \<and> row_name t \<in> set names}" and
    n: "\<forall>t \<in> set new. row_user t = auth_user \<and> row_name t \<in> set names \<and>
       \<not> owns auth_user (row_name t) (Tag_objects db)" and
    k: "length new = card {n \<in> set names. \<not> owns auth_user n (Tag_objects db)}"
    by (rule create_tags)
  from assms(3) have "{n \<in> set names. \<not> owns auth_user n (Tag_objects db)} = set names"
    by blast
  with k have 1: "length new = card (set names)" by simp
  have 2: "\<forall>t \<in> set new.
              row_user t = auth_user \<and> row_name t \<in> set names \<and>
              t \<in> set (tags_all db' (recipe_id recipe))"
    using n unfolding l e by simp
  show ?thesis
    by (rule exI[of _ recipe], rule exI[of _ db'], rule exI[of _ new])
       (intro conjI c e 1 2)
qed

theorem create_new_tags_one_row_per_distinct_name_witness:
  "wf_db empty_db \<and>
   (\<exists>recipe db' new.
      create example_defaults 1
        \<lparr>vd_tags = Some [''Thai'', ''Dinner''], vd_ingredients = None,
         vd_attrs = [Title ''Thai Prawn Curry'', Time_minutes 30, Price 250, User 1]\<rparr>
        empty_db = Inr (recipe, db') \<and>
      Tag_objects db' = Tag_objects empty_db @ new \<and> length new = 2)"
proof -
  let ?vd = "\<lparr>vd_tags = Some [''Thai'', ''Dinner''], vd_ingredients = None,
         vd_attrs = [Title ''Thai Prawn Curry'', Time_minutes 30, Price 250, User 1]\<rparr>"
  have h: "vd_tags ?vd = Some [''Thai'', ''Dinner'']" by simp
  have g: "\<forall>n \<in> set [''Thai'', ''Dinner'']. \<not> owns 1 n (Tag_objects empty_db)"
    by (simp add: owns_def empty_db_def)
  from create_new_tags_one_row_per_distinct_name[OF wf_empty_db h g, of example_defaults]
  obtain recipe db' new where
    c: "create example_defaults 1 ?vd empty_db = Inr (recipe, db')" and
    e: "Tag_objects db' = Tag_objects empty_db @ new" and
    k: "length new = card (set [''Thai'', ''Dinner''])"
    by (elim exE conjE)
  from k have 1: "length new = 2" by simp
  show ?thesis
    by (rule conjI[OF wf_empty_db], rule exI[of _ recipe], rule exI[of _ db'],
        rule exI[of _ new]) (intro conjI c e 1)
qed

text \<open>
  C6, as stated, fails when the list repeats a name: the user has no tag named Thai,
  the list holds two names, and one row is created.
\<close>

theorem create_repeated_name_counterexample:
  "\<not> owns 1 ''Thai'' (Tag_objects empty_db) \<and>
   length [''Thai'', ''Thai''] = 2 \<and>
   create example_defaults 1
     \<lparr>vd_tags = Some [''Thai'', ''Thai''], vd_ingredients = None,
      vd_attrs = [Title ''Thai Prawn Curry'', Time_minutes 30, Price 250, User 1]\<rparr> empty_db =
   Inr (\<lparr>recipe_id = 1, user = 1, title = ''Thai Prawn Curry'', time_minutes = 30,
         price = 250, link = [], description = [], image = None\<rparr>,
        \<lparr>Recipe_objects =
           [\<lparr>recipe_id = 1, user = 1, title = ''Thai Prawn Curry'', time_minutes = 30,
             price = 250, link = [], description = [], image = None\<rparr>],
         Tag_objects = [\<lparr>row_id = 1, row_user = 1, row_name = ''Thai''\<rparr>],
         Ingredient_objects = [],
         recipe_tags = [(1, 1)],
         recipe_ingredients = []\<rparr>)"
  by (simp add: create_def Recipe_objects_create_def get_or_create_def fresh_id_def add_def
      empty_db_def example_defaults_def owns_def Let_def)

section \<open>The owner of the associations\<close>

lemma owner_inv_owned:
  "owner_inv db \<longleftrightarrow>
     owned (Recipe_objects db) (Tag_objects db) (recipe_tags db) \<and>
     owned (Recipe_objects db) (Ingredient_objects db) (recipe_ingredients db)"
  unfolding owner_inv_def owned_def tags_all_def ingredients_all_def
  by (simp only: set_filter mem_Collect_eq) blast

lemma user_setattr_id: "user (r\<lparr>recipe_id := i\<rparr>) = user r"
  by simp

text \<open>The recipe's own tags after the operation, from the invariant.\<close>

lemma owned_own_rows:
  assumes "owned recipes objs links" "r \<in> set recipes"
  shows "\<forall>t \<in> set (filter (\<lambda>t. (recipe_id r, row_id t) \<in> set links) objs). row_user t = user r"
  using assms unfolding owned_def by simp

lemma update_preserves:
  assumes wf: "wf_db db" and inv: "owner_inv db"
    and mem: "instance \<in> set (Recipe_objects db)"
    and own: "user instance = auth_user"
    and keep: "user (fold (\<lambda>f i. setattr i f) (vd_attrs vd) instance) = auth_user"
  shows "\<exists>instance' db'.
           update auth_user instance vd db = Inr (instance', db') \<and>
           wf_db db' \<and> owner_inv db' \<and>
           (\<forall>t \<in> set (tags_all db' (recipe_id instance)). row_user t = auth_user) \<and>
           (\<forall>t \<in> set (ingredients_all db' (recipe_id instance)). row_user t = auth_user)"
proof -
  let ?rid = "recipe_id instance"
  let ?recipes = "Recipe_objects db"
  from wf have un: "unique_names (Tag_objects db)" "unique_names (Ingredient_objects db)"
    and pk: "distinct (map row_id (Tag_objects db))"
      "distinct (map row_id (Ingredient_objects db))"
    and pkr: "distinct (map recipe_id ?recipes)"
    and fkt: "\<forall>l \<in> set (recipe_tags db).
        fst l \<in> recipe_id ` set ?recipes \<and> snd l \<in> row_id ` set (Tag_objects db)"
    and fki: "\<forall>l \<in> set (recipe_ingredients db).
        fst l \<in> recipe_id ` set ?recipes \<and> snd l \<in> row_id ` set (Ingredient_objects db)"
    by (simp_all add: wf_db_def)
  from inv have ot: "owned ?recipes (Tag_objects db) (recipe_tags db)"
    and oi: "owned ?recipes (Ingredient_objects db) (recipe_ingredients db)"
    by (simp_all add: owner_inv_owned)
  from update_succeeds[OF un] obtain instance' db' where
    u: "update auth_user instance vd db = Inr (instance', db')" by blast
  from u obtain tobjs tlinks iobjs ilinks where
    rt: "replace auth_user (vd_tags vd) ?rid (Tag_objects db) (recipe_tags db) =
           Inr (tobjs, tlinks)" and
    ri: "replace auth_user (vd_ingredients vd) ?rid (Ingredient_objects db)
           (recipe_ingredients db) = Inr (iobjs, ilinks)" and
    i: "instance' = fold (\<lambda>f i. setattr i f) (vd_attrs vd) instance" and
    d: "db' = \<lparr>Recipe_objects = save instance' ?recipes,
              Tag_objects = tobjs, Ingredient_objects = iobjs,
              recipe_tags = tlinks, recipe_ingredients = ilinks\<rparr>"
    by (rule update_InrE)
  have id: "recipe_id instance' = ?rid" by (simp add: i recipe_id_fold_setattr)
  have us: "user instance' = auth_user" using keep by (simp add: i)
  from mem have ex: "\<exists>r \<in> set ?recipes. recipe_id r = recipe_id instance'"
    unfolding id by blast
  have ids: "map recipe_id (save instance' ?recipes) = map recipe_id ?recipes"
    using ex by (simp only: map_recipe_id_save if_True)
  then have "set (map recipe_id (save instance' ?recipes)) = set (map recipe_id ?recipes)"
    by simp
  then have idset: "recipe_id ` set (save instance' ?recipes) = recipe_id ` set ?recipes"
    by simp
  have inrec: "instance' \<in> set (save instance' ?recipes)" by (simp add: set_save)
  have rec: "\<forall>r' \<in> set (save instance' ?recipes).
       (recipe_id r' \<noteq> ?rid \<and> r' \<in> set ?recipes) \<or> (recipe_id r' = ?rid \<and> user r' = auth_user)"
    using id us by (auto simp: set_save)
  have curt: "\<forall>t \<in> set (Tag_objects db).
       (?rid, row_id t) \<in> set (recipe_tags db) \<longrightarrow> row_user t = auth_user"
    using ot mem own unfolding owned_def by blast
  have curi: "\<forall>t \<in> set (Ingredient_objects db).
       (?rid, row_id t) \<in> set (recipe_ingredients db) \<longrightarrow> row_user t = auth_user"
    using oi mem own unfolding owned_def by blast
  from fkt have fkt2: "\<forall>l \<in> set (recipe_tags db). snd l \<in> row_id ` set (Tag_objects db)"
    by blast
  from fki have fki2:
    "\<forall>l \<in> set (recipe_ingredients db). snd l \<in> row_id ` set (Ingredient_objects db)"
    by blast
  have ot': "owned (save instance' ?recipes) tobjs tlinks"
    by (rule owned_replace[OF rt un(1) pk(1) fkt2 ot curt rec])
  have oi': "owned (save instance' ?recipes) iobjs ilinks"
    by (rule owned_replace[OF ri un(2) pk(2) fki2 oi curi rec])
  have ridin: "?rid \<in> recipe_id ` set ?recipes" using mem by blast
  have fkt': "\<forall>l \<in> set tlinks. fst l \<in> recipe_id ` set ?recipes \<and> snd l \<in> row_id ` set tobjs"
    by (rule fk_replace[OF rt un(1) fkt subset_refl ridin])
  have fki': "\<forall>l \<in> set ilinks. fst l \<in> recipe_id ` set ?recipes \<and> snd l \<in> row_id ` set iobjs"
    by (rule fk_replace[OF ri un(2) fki subset_refl ridin])
  have wf': "wf_db db'"
    unfolding wf_db_def d database.select_convs ids idset
    by (intro conjI pkr replace_pk[OF rt pk(1)] replace_pk[OF ri pk(2)]
        replace_unique[OF rt un(1)] replace_unique[OF ri un(2)] fkt' fki')
  have inv': "owner_inv db'"
    unfolding owner_inv_owned d database.select_convs by (intro conjI ot' oi')
  from owned_own_rows[OF ot' inrec]
  have 1: "\<forall>t \<in> set (tags_all db' ?rid). row_user t = auth_user"
    unfolding tags_all_def d database.select_convs id us .
  from owned_own_rows[OF oi' inrec]
  have 2: "\<forall>t \<in> set (ingredients_all db' ?rid). row_user t = auth_user"
    unfolding ingredients_all_def d database.select_convs id us .
  show ?thesis
    by (rule exI[of _ instance'], rule exI[of _ db']) (intro conjI u wf' inv' 1 2)
qed


lemma create_preserves:
  assumes wf: "wf_db db" and inv: "owner_inv db"
    and own: "user (fold (\<lambda>f i. setattr i f) (vd_attrs vd) defaults) = auth_user"
  shows "\<exists>recipe db'.
           create defaults auth_user vd db = Inr (recipe, db') \<and>
           wf_db db' \<and> owner_inv db' \<and>
           (\<forall>t \<in> set (tags_all db' (recipe_id recipe)). row_user t = auth_user) \<and>
           (\<forall>t \<in> set (ingredients_all db' (recipe_id recipe)). row_user t = auth_user)"
proof -
  let ?recipes = "Recipe_objects db"
  let ?ts = "case vd_tags vd of None \<Rightarrow> [] | Some ts \<Rightarrow> ts"
  let ?is = "case vd_ingredients vd of None \<Rightarrow> [] | Some is \<Rightarrow> is"
  from wf have un: "unique_names (Tag_objects db)" "unique_names (Ingredient_objects db)"
    and pk: "distinct (map row_id (Tag_objects db))"
      "distinct (map row_id (Ingredient_objects db))"
    and pkr: "distinct (map recipe_id ?recipes)"
    and fkt: "\<forall>l \<in> set (recipe_tags db).
        fst l \<in> recipe_id ` set ?recipes \<and> snd l \<in> row_id ` set (Tag_objects db)"
    and fki: "\<forall>l \<in> set (recipe_ingredients db).
        fst l \<in> recipe_id ` set ?recipes \<and> snd l \<in> row_id ` set (Ingredient_objects db)"
    by (simp_all add: wf_db_def)
  from inv have ot: "owned ?recipes (Tag_objects db) (recipe_tags db)"
    and oi: "owned ?recipes (Ingredient_objects db) (recipe_ingredients db)"
    by (simp_all add: owner_inv_owned)
  from wf obtain recipe db' tobjs tlinks iobjs ilinks where
    c: "create defaults auth_user vd db = Inr (recipe, db')" and
    r: "recipe = (fold (\<lambda>f i. setattr i f) (vd_attrs vd) defaults)
                \<lparr>recipe_id := fresh_id (map recipe_id ?recipes)\<rparr>" and
    rt: "replace auth_user (Some ?ts) (recipe_id recipe) (Tag_objects db) (recipe_tags db) =
           Inr (tobjs, tlinks)" and
    ri: "replace auth_user (Some ?is) (recipe_id recipe) (Ingredient_objects db)
           (recipe_ingredients db) = Inr (iobjs, ilinks)" and
    d: "db' = \<lparr>Recipe_objects = ?recipes @ [recipe],
            Tag_objects = tobjs, Ingredient_objects = iobjs,
            recipe_tags = tlinks, recipe_ingredients = ilinks\<rparr>"
    by (rule create_wfE)
  let ?rid = "recipe_id recipe"
  have id: "?rid = fresh_id (map recipe_id ?recipes)" by (simp add: r)
  have us: "user recipe = auth_user" using own by (simp add: r)
  have fresh: "?rid \<notin> recipe_id ` set ?recipes"
    using fresh_id_notin[of "map recipe_id ?recipes"] unfolding id by simp
  have neq: "\<forall>r' \<in> set ?recipes. recipe_id r' \<noteq> ?rid"
  proof
    fix r' assume "r' \<in> set ?recipes"
    then have "recipe_id r' \<in> recipe_id ` set ?recipes" by (rule imageI)
    with fresh show "recipe_id r' \<noteq> ?rid" by metis
  qed
  have rec: "\<forall>r' \<in> set (?recipes @ [recipe]).
       (recipe_id r' \<noteq> ?rid \<and> r' \<in> set ?recipes) \<or> (recipe_id r' = ?rid \<and> user r' = auth_user)"
    using neq us by auto
  from wf_db_fresh_unlinked[OF wf]
  have nt: "\<forall>l \<in> set (recipe_tags db). fst l \<noteq> ?rid"
    and ni: "\<forall>l \<in> set (recipe_ingredients db). fst l \<noteq> ?rid"
    unfolding id by blast+
  have curt: "\<forall>t \<in> set (Tag_objects db).
       (?rid, row_id t) \<in> set (recipe_tags db) \<longrightarrow> row_user t = auth_user"
    using nt by force
  have curi: "\<forall>t \<in> set (Ingredient_objects db).
       (?rid, row_id t) \<in> set (recipe_ingredients db) \<longrightarrow> row_user t = auth_user"
    using ni by force
  from fkt have fkt2: "\<forall>l \<in> set (recipe_tags db). snd l \<in> row_id ` set (Tag_objects db)"
    by blast
  from fki have fki2:
    "\<forall>l \<in> set (recipe_ingredients db). snd l \<in> row_id ` set (Ingredient_objects db)"
    by blast
  have ot': "owned (?recipes @ [recipe]) tobjs tlinks"
    by (rule owned_replace[OF rt un(1) pk(1) fkt2 ot curt rec])
  have oi': "owned (?recipes @ [recipe]) iobjs ilinks"
    by (rule owned_replace[OF ri un(2) pk(2) fki2 oi curi rec])
  have sub: "recipe_id ` set ?recipes \<subseteq> recipe_id ` set (?recipes @ [recipe])" by auto
  have ridin: "?rid \<in> recipe_id ` set (?recipes @ [recipe])" by simp
  have fkt': "\<forall>l \<in> set tlinks.
      fst l \<in> recipe_id ` set (?recipes @ [recipe]) \<and> snd l \<in> row_id ` set tobjs"
    by (rule fk_replace[OF rt un(1) fkt sub ridin])
  have fki': "\<forall>l \<in> set ilinks.
      fst l \<in> recipe_id ` set (?recipes @ [recipe]) \<and> snd l \<in> row_id ` set iobjs"
    by (rule fk_replace[OF ri un(2) fki sub ridin])
  have pkr': "distinct (map recipe_id (?recipes @ [recipe]))"
    using pkr fresh by simp
  have wf': "wf_db db'"
    unfolding wf_db_def d database.select_convs
    by (intro conjI pkr' replace_pk[OF rt pk(1)] replace_pk[OF ri pk(2)]
        replace_unique[OF rt un(1)] replace_unique[OF ri un(2)] fkt' fki')
  have inv': "owner_inv db'"
    unfolding owner_inv_owned d database.select_convs by (intro conjI ot' oi')
  have inrec: "recipe \<in> set (?recipes @ [recipe])" by simp
  from owned_own_rows[OF ot' inrec]
  have 1: "\<forall>t \<in> set (tags_all db' ?rid). row_user t = auth_user"
    unfolding tags_all_def d database.select_convs us .
  from owned_own_rows[OF oi' inrec]
  have 2: "\<forall>t \<in> set (ingredients_all db' ?rid). row_user t = auth_user"
    unfolding ingredients_all_def d database.select_convs us .
  show ?thesis
    by (rule exI[of _ recipe], rule exI[of _ db']) (intro conjI c wf' inv' 1 2)
qed

text \<open>
  C3. Integrity of the database, together with the invariant that every tag and
  ingredient of a recipe belongs to the recipe's owner, is kept by a create whose
  recipe is made for the authenticated user and by an update of a stored recipe of the
  authenticated user whose validated data leaves the owner alone. Both operations
  return, and the tags and ingredients of the recipe afterwards are all rows of the
  authenticated user.
\<close>

theorem associations_stay_with_the_requesting_user:
  assumes "wf_db db" and "owner_inv db"
  shows "(user (fold (\<lambda>f i. setattr i f) (vd_attrs validated_data) defaults) = auth_user \<longrightarrow>
            (\<exists>recipe db'.
               create defaults auth_user validated_data db = Inr (recipe, db') \<and>
               wf_db db' \<and> owner_inv db' \<and>
               (\<forall>t \<in> set (tags_all db' (recipe_id recipe)). row_user t = auth_user) \<and>
               (\<forall>t \<in> set (ingredients_all db' (recipe_id recipe)). row_user t = auth_user))) \<and>
         (instance \<in> set (Recipe_objects db) \<and> user instance = auth_user \<and>
          user (fold (\<lambda>f i. setattr i f) (vd_attrs validated_data) instance) = auth_user \<longrightarrow>
            (\<exists>instance' db'.
               update auth_user instance validated_data db = Inr (instance', db') \<and>
               wf_db db' \<and> owner_inv db' \<and>
               (\<forall>t \<in> set (tags_all db' (recipe_id instance)). row_user t = auth_user) \<and>
               (\<forall>t \<in> set (ingredients_all db' (recipe_id instance)).
                  row_user t = auth_user)))"
proof (intro conjI impI)
  assume "user (fold (\<lambda>f i. setattr i f) (vd_attrs validated_data) defaults) = auth_user"
  from create_preserves[OF assms this]
  show "\<exists>recipe db'.
               create defaults auth_user validated_data db = Inr (recipe, db') \<and>
               wf_db db' \<and> owner_inv db' \<and>
               (\<forall>t \<in> set (tags_all db' (recipe_id recipe)). row_user t = auth_user) \<and>
               (\<forall>t \<in> set (ingredients_all db' (recipe_id recipe)). row_user t = auth_user)" .
next
  assume a: "instance \<in> set (Recipe_objects db) \<and> user instance = auth_user \<and>
          user (fold (\<lambda>f i. setattr i f) (vd_attrs validated_data) instance) = auth_user"
  then have "instance \<in> set (Recipe_objects db)" "user instance = auth_user"
    "user (fold (\<lambda>f i. setattr i f) (vd_attrs validated_data) instance) = auth_user"
    by simp_all
  from update_preserves[OF assms this]
  show "\<exists>instance' db'.
               update auth_user instance validated_data db = Inr (instance', db') \<and>
               wf_db db' \<and> owner_inv db' \<and>
               (\<forall>t \<in> set (tags_all db' (recipe_id instance)). row_user t = auth_user) \<and>
               (\<forall>t \<in> set (ingredients_all db' (recipe_id instance)).
                  row_user t = auth_user)" .
qed

theorem associations_stay_with_the_requesting_user_witness:
  "wf_db example_db \<and> owner_inv example_db \<and>
   example_recipe \<in> set (Recipe_objects example_db) \<and> user example_recipe = 1 \<and>
   (\<exists>recipe db'.
      create example_defaults 1
        \<lparr>vd_tags = Some [''Lunch''], vd_ingredients = Some [''Salt''],
         vd_attrs = [Title ''New recipe title'', User 1]\<rparr> example_db = Inr (recipe, db') \<and>
      wf_db db' \<and> owner_inv db') \<and>
   (\<exists>instance' db'.
      update 1 example_recipe
        \<lparr>vd_tags = Some [''Lunch''], vd_ingredients = Some [''Salt''],
         vd_attrs = [Title ''New recipe title'', User 1]\<rparr> example_db = Inr (instance', db') \<and>
      wf_db db' \<and> owner_inv db')"
proof -
  let ?vd = "\<lparr>vd_tags = Some [''Lunch''], vd_ingredients = Some [''Salt''],
         vd_attrs = [Title ''New recipe title'', User 1]\<rparr>"
  note t = associations_stay_with_the_requesting_user
    [OF wf_example_db owner_inv_example_db, of ?vd example_defaults 1 example_recipe]
  have h1: "user (fold (\<lambda>f i. setattr i f) (vd_attrs ?vd) example_defaults) = 1"
    by (simp add: example_defaults_def)
  have h2: "example_recipe \<in> set (Recipe_objects example_db)" "user example_recipe = 1"
    "user (fold (\<lambda>f i. setattr i f) (vd_attrs ?vd) example_recipe) = 1"
    by (simp_all add: example_db_def example_recipe_def)
  from t h1 have 1: "\<exists>recipe db'.
      create example_defaults 1 ?vd example_db = Inr (recipe, db') \<and>
      wf_db db' \<and> owner_inv db'" by blast
  from t h2 have 2: "\<exists>instance' db'.
      update 1 example_recipe ?vd example_db = Inr (instance', db') \<and>
      wf_db db' \<and> owner_inv db'" by blast
  show ?thesis by (intro conjI wf_example_db owner_inv_example_db h2(1,2) 1 2)
qed

section \<open>The viewset\<close>

lemma recipe_pk_eq:
  assumes "distinct (map recipe_id objs)" "a \<in> set objs" "b \<in> set objs"
    "recipe_id a = recipe_id b"
  shows "a = b"
proof -
  from assms(1) have "inj_on recipe_id (set objs)" by (simp add: distinct_map)
  from inj_onD[OF this assms(4,2,3)] show ?thesis .
qed

lemma get_object_other_user:
  assumes "r \<in> set (Recipe_objects db)" "recipe_id r = rid" "user r \<noteq> auth_user"
    "distinct (map recipe_id (Recipe_objects db))"
  shows "get_object auth_user rid db = None"
proof -
  have "\<not> (\<exists>x. x \<in> set (get_queryset auth_user db) \<and> recipe_id x = rid)"
  proof
    assume "\<exists>x. x \<in> set (get_queryset auth_user db) \<and> recipe_id x = rid"
    then obtain x where x: "x \<in> set (Recipe_objects db)" "user x = auth_user"
      "recipe_id x = rid"
      by (auto simp: get_queryset_def)
    from recipe_pk_eq[OF assms(4) x(1) assms(1)] x(3) assms(2) have "x = r" by simp
    with x(2) assms(3) show False by simp
  qed
  then show ?thesis by (simp add: get_object_def find_None_iff)
qed

text \<open>
  C9. When the recipe with the requested identifier belongs to another user than the
  authenticated one, retrieving, updating (fully or partially, with any payload) and
  deleting it each answer not found, and return the database as it was.
\<close>

theorem other_users_recipe_is_not_found:
  assumes "r \<in> set (Recipe_objects db)" and "recipe_id r = rid" and "user r \<noteq> auth_user"
    and "distinct (map recipe_id (Recipe_objects db))"
  shows "view_retrieve auth_user rid db = ((HTTP_404_NOT_FOUND, None), db) \<and>
         view_update field_names auth_user rid partial data db =
           Inr ((HTTP_404_NOT_FOUND, None), db) \<and>
         view_destroy auth_user rid db = ((HTTP_404_NOT_FOUND, None), db)"
  using get_object_other_user[OF assms]
  by (simp add: view_retrieve_def view_update_def view_destroy_def)

theorem other_users_recipe_is_not_found_witness:
  "other_recipe \<in> set (Recipe_objects example_db) \<and> recipe_id other_recipe = 2 \<and>
   user other_recipe \<noteq> 1 \<and> distinct (map recipe_id (Recipe_objects example_db)) \<and>
   view_retrieve 1 2 example_db = ((HTTP_404_NOT_FOUND, None), example_db) \<and>
   view_update Detail_Meta_fields 1 2 True
     \<lparr>p_tags = Some [], p_ingredients = None, p_attrs = [Title ''New recipe title'']\<rparr>
     example_db = Inr ((HTTP_404_NOT_FOUND, None), example_db) \<and>
   view_destroy 1 2 example_db = ((HTTP_404_NOT_FOUND, None), example_db)"
proof -
  have h: "other_recipe \<in> set (Recipe_objects example_db)" "recipe_id other_recipe = 2"
    "user other_recipe \<noteq> 1" "distinct (map recipe_id (Recipe_objects example_db))"
    by (simp_all add: example_db_def other_recipe_def example_recipe_def)
  from other_users_recipe_is_not_found[OF h, of Detail_Meta_fields True
      "\<lparr>p_tags = Some [], p_ingredients = None, p_attrs = [Title ''New recipe title'']\<rparr>"]
    h
  show ?thesis by simp
qed

section \<open>Validation and the user field\<close>

lemma find_filter_other:
  "k \<noteq> k' \<Longrightarrow>
   find (\<lambda>f. key f = k) (filter (\<lambda>f. key f \<noteq> k') fs) = find (\<lambda>f. key f = k) fs"
  by (induction fs) auto

lemma key_image_filter_other:
  "k \<noteq> k' \<Longrightarrow> k \<in> key ` set (filter (\<lambda>f. key f \<noteq> k') fs) \<longleftrightarrow> k \<in> key ` set fs"
  by (induction fs) auto

lemma map_filter_cong_set:
  "(\<And>k. k \<in> set ks \<Longrightarrow> f k = g k) \<Longrightarrow> List.map_filter f ks = List.map_filter g ks"
proof (induction ks)
  case Nil
  show ?case by (simp add: List.map_filter_simps)
next
  case (Cons k ks)
  have "f k = g k" by (rule Cons.prems) simp
  moreover have "List.map_filter f ks = List.map_filter g ks"
    by (rule Cons.IH) (simp add: Cons.prems)
  ultimately show ?case by (simp add: List.map_filter_simps split: option.splits)
qed

lemma user_not_required: "''user'' \<notin> set required_fields"
  by (simp add: required_fields_def)

text \<open>Validation does not read a key that the serializer does not declare.\<close>

lemma run_validation_undeclared:
  assumes "''user'' \<notin> set field_names"
  shows "run_validation field_names partial
           (data\<lparr>p_attrs := filter (\<lambda>f. key f \<noteq> ''user'') (p_attrs data)\<rparr>) =
         run_validation field_names partial data"
proof -
  let ?w = "filter (\<lambda>k. k \<notin> set Meta_read_only_fields) field_names"
  let ?fs = "filter (\<lambda>f. key f \<noteq> ''user'') (p_attrs data)"
  from assms have w: "\<And>k. k \<in> set ?w \<Longrightarrow> k \<noteq> ''user''" by auto
  have a: "List.map_filter (\<lambda>k. find (\<lambda>f. key f = k) ?fs) ?w =
        List.map_filter (\<lambda>k. find (\<lambda>f. key f = k) (p_attrs data)) ?w"
    by (rule map_filter_cong_set) (simp add: find_filter_other[OF w])
  have b: "(\<exists>k \<in> set required_fields. k \<in> set ?w \<and> k \<notin> key ` set ?fs) \<longleftrightarrow>
        (\<exists>k \<in> set required_fields. k \<in> set ?w \<and> k \<notin> key ` set (p_attrs data))"
    using key_image_filter_other[OF w, of _ "p_attrs data"] by blast
  have sel: "p_attrs (data\<lparr>p_attrs := ?fs\<rparr>) = ?fs"
    "p_tags (data\<lparr>p_attrs := ?fs\<rparr>) = p_tags data"
    "p_ingredients (data\<lparr>p_attrs := ?fs\<rparr>) = p_ingredients data"
    by simp_all
  show ?thesis
    unfolding run_validation_def Let_def sel a b by (rule refl)
qed

lemma user_fold_setattr:
  "''user'' \<notin> key ` set fs \<Longrightarrow> user (fold (\<lambda>f i. setattr i f) fs r) = user r"
proof (induction fs arbitrary: r)
  case Nil
  then show ?case by simp
next
  case (Cons f fs)
  from Cons.prems have k: "key f \<noteq> ''user''" and r: "''user'' \<notin> key ` set fs" by auto
  from k have "user (setattr r f) = user r" by (cases f) simp_all
  with Cons.IH[OF r] show ?case by simp
qed

lemma map_filter_find_keys:
  "key ` set (List.map_filter (\<lambda>k. find (\<lambda>f. key f = k) fs) ks) \<subseteq> set ks"
proof (induction ks)
  case Nil
  then show ?case by (simp add: List.map_filter_simps)
next
  case (Cons k ks)
  show ?case
  proof (cases "find (\<lambda>f. key f = k) fs")
    case None
    with Cons show ?thesis by (auto simp: List.map_filter_simps)
  next
    case (Some f)
    then have "key f = k" by (auto simp: find_Some_iff)
    with Some Cons show ?thesis by (auto simp: List.map_filter_simps)
  qed
qed

lemma run_validation_keys:
  assumes "run_validation field_names partial data = Some vd"
  shows "key ` set (vd_attrs vd) \<subseteq> set field_names"
proof -
  let ?w = "filter (\<lambda>k. k \<notin> set Meta_read_only_fields) field_names"
  from assms have "vd_attrs vd =
      List.map_filter (\<lambda>k. find (\<lambda>f. key f = k) (p_attrs data)) ?w"
    by (auto simp: run_validation_def Let_def split: if_splits)
  with map_filter_find_keys[of "p_attrs data" ?w] show ?thesis by auto
qed

lemma run_validation_distinct:
  assumes "run_validation field_names partial data = Some vd" "distinct field_names"
  shows "distinct (map key (vd_attrs vd))"
proof -
  have d: "distinct ks \<Longrightarrow>
     distinct (map key (List.map_filter (\<lambda>k. find (\<lambda>f. key f = k) fs) ks))" for ks fs
  proof (induction ks)
    case Nil
    then show ?case by (simp add: List.map_filter_simps)
  next
    case (Cons k ks)
    show ?case
    proof (cases "find (\<lambda>f. key f = k) fs")
      case None
      with Cons show ?thesis by (simp add: List.map_filter_simps)
    next
      case (Some f)
      then have "key f = k" by (auto simp: find_Some_iff)
      moreover from Cons.prems map_filter_find_keys[of fs ks]
      have "k \<notin> key ` set (List.map_filter (\<lambda>k. find (\<lambda>f. key f = k) fs) ks)" by auto
      ultimately show ?thesis using Some Cons by (simp add: List.map_filter_simps)
    qed
  qed
  let ?w = "filter (\<lambda>k. k \<notin> set Meta_read_only_fields) field_names"
  from assms(1) have "vd_attrs vd =
      List.map_filter (\<lambda>k. find (\<lambda>f. key f = k) (p_attrs data)) ?w"
    by (auto simp: run_validation_def Let_def split: if_splits)
  with d[of ?w "p_attrs data"] assms(2) show ?thesis by simp
qed

lemma Meta_fields_no_user:
  "''user'' \<notin> set Meta_fields" "''user'' \<notin> set Detail_Meta_fields"
  by (simp_all add: Meta_fields_def Detail_Meta_fields_def)

lemma get_object_SomeD:
  assumes "get_object auth_user rid db = Some instance"
  shows "instance \<in> set (Recipe_objects db) \<and> user instance = auth_user \<and>
         recipe_id instance = rid"
proof -
  from assms obtain i where "i < length (get_queryset auth_user db)"
    "recipe_id (get_queryset auth_user db ! i) = rid"
    "instance = get_queryset auth_user db ! i"
    unfolding get_object_def find_Some_iff by blast
  then have "instance \<in> set (get_queryset auth_user db)" "recipe_id instance = rid"
    by simp_all
  then show ?thesis by (simp add: get_queryset_def)
qed


lemma view_create_InrD:
  assumes "view_create field_names defaults auth_user data db = Inr ((st, Some recipe), db')"
  obtains vd where
    "run_validation field_names False data = Some vd"
    "create defaults auth_user
       (vd\<lparr>vd_attrs := filter (\<lambda>f. key f \<noteq> ''user'') (vd_attrs vd) @ [User auth_user]\<rparr>) db =
       Inr (recipe, db')"
  using assms unfolding view_create_def
  by (auto split: option.splits sum.splits)

lemma view_update_InrD:
  assumes "view_update field_names auth_user rid partial data db =
             Inr ((st, Some instance'), db')"
  obtains inst vd where
    "get_object auth_user rid db = Some inst"
    "run_validation field_names partial data = Some vd"
    "update auth_user inst vd db = Inr (instance', db')"
  using assms unfolding view_update_def
  by (auto split: option.splits sum.splits)

lemma view_create_owner:
  assumes "view_create field_names defaults auth_user data db = Inr ((st, Some recipe), db')"
  shows "user recipe = auth_user \<and> recipe \<in> set (Recipe_objects db')"
proof -
  from assms obtain vd where
    c: "create defaults auth_user
       (vd\<lparr>vd_attrs := filter (\<lambda>f. key f \<noteq> ''user'') (vd_attrs vd) @ [User auth_user]\<rparr>) db =
       Inr (recipe, db')"
    by (rule view_create_InrD)
  from c obtain tobjs tlinks iobjs ilinks where
    r: "recipe = (fold (\<lambda>f i. setattr i f)
           (vd_attrs (vd\<lparr>vd_attrs :=
              filter (\<lambda>f. key f \<noteq> ''user'') (vd_attrs vd) @ [User auth_user]\<rparr>)) defaults)
                \<lparr>recipe_id := fresh_id (map recipe_id (Recipe_objects db))\<rparr>" and
    d: "db' = \<lparr>Recipe_objects = Recipe_objects db @ [recipe],
            Tag_objects = tobjs, Ingredient_objects = iobjs,
            recipe_tags = tlinks, recipe_ingredients = ilinks\<rparr>"
    by (rule create_InrE)
  from r have "user recipe = auth_user" by simp
  moreover from d have "recipe \<in> set (Recipe_objects db')" by simp
  ultimately show ?thesis ..
qed

lemma view_update_owner:
  assumes v: "view_update field_names auth_user rid partial data db =
             Inr ((st, Some instance'), db')"
    and n: "''user'' \<notin> set field_names"
  shows "\<exists>instance. get_object auth_user rid db = Some instance \<and>
           user instance' = user instance \<and> user instance' = auth_user \<and>
           find (\<lambda>r. recipe_id r = rid) (Recipe_objects db') = Some instance'"
proof -
  from v obtain inst vd where
    g: "get_object auth_user rid db = Some inst" and
    rv: "run_validation field_names partial data = Some vd" and
    u: "update auth_user inst vd db = Inr (instance', db')"
    by (rule view_update_InrD)
  from u obtain tobjs tlinks iobjs ilinks where
    i: "instance' = fold (\<lambda>f i. setattr i f) (vd_attrs vd) inst" and
    d: "db' = \<lparr>Recipe_objects = save instance' (Recipe_objects db),
              Tag_objects = tobjs, Ingredient_objects = iobjs,
              recipe_tags = tlinks, recipe_ingredients = ilinks\<rparr>"
    by (rule update_InrE)
  from run_validation_keys[OF rv] n have "''user'' \<notin> key ` set (vd_attrs vd)" by blast
  from user_fold_setattr[OF this] have 1: "user instance' = user inst" by (simp add: i)
  from get_object_SomeD[OF g] have o: "user inst = auth_user" "recipe_id inst = rid"
    by simp_all
  have id: "recipe_id instance' = rid" by (simp add: i recipe_id_fold_setattr o)
  from find_save[of instance' "Recipe_objects db"]
  have 3: "find (\<lambda>r. recipe_id r = rid) (Recipe_objects db') = Some instance'"
    by (simp add: d id)
  from g 1 o(1) 3 show ?thesis by simp
qed

lemma view_create_returns:
  assumes "wf_db db"
  shows "\<exists>resp db'. view_create field_names defaults auth_user data db = Inr (resp, db')"
proof (cases "run_validation field_names False data")
  case None
  then show ?thesis by (simp add: view_create_def)
next
  case (Some vd)
  from assms have "unique_names (Tag_objects db)" "unique_names (Ingredient_objects db)"
    by (simp_all add: wf_db_def)
  from create_succeeds[OF this] obtain recipe db' where
    "create defaults auth_user
       (vd\<lparr>vd_attrs := filter (\<lambda>f. key f \<noteq> ''user'') (vd_attrs vd) @ [User auth_user]\<rparr>) db =
       Inr (recipe, db')" by blast
  with Some show ?thesis by (simp add: view_create_def)
qed

lemma view_update_returns:
  assumes "wf_db db"
  shows "\<exists>resp db'. view_update field_names auth_user rid partial data db = Inr (resp, db')"
proof (cases "get_object auth_user rid db")
  case None
  then show ?thesis by (simp add: view_update_def)
next
  case (Some inst)
  note g = this
  show ?thesis
  proof (cases "run_validation field_names partial data")
    case None
    with g show ?thesis by (simp add: view_update_def)
  next
    case (Some vd)
    from assms have "unique_names (Tag_objects db)" "unique_names (Ingredient_objects db)"
      by (simp_all add: wf_db_def)
    from update_succeeds[OF this] obtain instance' db' where
      "update auth_user inst vd db = Inr (instance', db')" by blast
    with g Some show ?thesis by (simp add: view_update_def)
  qed
qed

text \<open>
  C5. With the field list of either serializer, a create and an update answer and
  leave the database exactly as on the same payload without its user items; a recipe
  that a create returns belongs to the authenticated user and is stored; a recipe that
  an update returns has the owner of the stored recipe it was fetched as, who is the
  authenticated user, and is the stored row afterwards. On a well-formed database
  both handlers answer: no exception is passed on.
\<close>

theorem user_field_is_ignored:
  assumes "field_names = Meta_fields \<or> field_names = Detail_Meta_fields"
  shows "view_create field_names defaults auth_user data db =
           view_create field_names defaults auth_user
             (data\<lparr>p_attrs := filter (\<lambda>f. key f \<noteq> ''user'') (p_attrs data)\<rparr>) db \<and>
         view_update field_names auth_user rid partial data db =
           view_update field_names auth_user rid partial
             (data\<lparr>p_attrs := filter (\<lambda>f. key f \<noteq> ''user'') (p_attrs data)\<rparr>) db \<and>
         (\<forall>st recipe db'.
            view_create field_names defaults auth_user data db = Inr ((st, Some recipe), db') \<longrightarrow>
            user recipe = auth_user \<and> recipe \<in> set (Recipe_objects db')) \<and>
         (\<forall>st instance' db'.
            view_update field_names auth_user rid partial data db =
              Inr ((st, Some instance'), db') \<longrightarrow>
            (\<exists>instance. get_object auth_user rid db = Some instance \<and>
               user instance' = user instance \<and> user instance' = auth_user \<and>
               find (\<lambda>r. recipe_id r = rid) (Recipe_objects db') = Some instance')) \<and>
         (wf_db db \<longrightarrow>
            (\<exists>resp db'. view_create field_names defaults auth_user data db = Inr (resp, db')) \<and>
            (\<exists>resp db'. view_update field_names auth_user rid partial data db =
               Inr (resp, db')))"
proof -
  from assms have n: "''user'' \<notin> set field_names"
    using Meta_fields_no_user by blast
  have 1: "view_create field_names defaults auth_user data db =
           view_create field_names defaults auth_user
             (data\<lparr>p_attrs := filter (\<lambda>f. key f \<noteq> ''user'') (p_attrs data)\<rparr>) db"
    unfolding view_create_def run_validation_undeclared[OF n] by (rule refl)
  have 2: "view_update field_names auth_user rid partial data db =
           view_update field_names auth_user rid partial
             (data\<lparr>p_attrs := filter (\<lambda>f. key f \<noteq> ''user'') (p_attrs data)\<rparr>) db"
    unfolding view_update_def run_validation_undeclared[OF n] by (rule refl)
  have 3: "\<forall>st recipe db'.
            view_create field_names defaults auth_user data db = Inr ((st, Some recipe), db') \<longrightarrow>
            user recipe = auth_user \<and> recipe \<in> set (Recipe_objects db')"
    by (intro allI impI) (rule view_create_owner)
  have 4: "\<forall>st instance' db'.
            view_update field_names auth_user rid partial data db =
              Inr ((st, Some instance'), db') \<longrightarrow>
            (\<exists>instance. get_object auth_user rid db = Some instance \<and>
               user instance' = user instance \<and> user instance' = auth_user \<and>
               find (\<lambda>r. recipe_id r = rid) (Recipe_objects db') = Some instance')"
    by (intro allI impI) (rule view_update_owner[OF _ n])
  have 5: "wf_db db \<longrightarrow>
            (\<exists>resp db'. view_create field_names defaults auth_user data db = Inr (resp, db')) \<and>
            (\<exists>resp db'. view_update field_names auth_user rid partial data db =
               Inr (resp, db'))"
    by (intro impI conjI view_create_returns view_update_returns)
  show ?thesis by (intro conjI 1 2 3 4 5)
qed


lemma view_update_empty_example:
  "view_update Detail_Meta_fields 1 1 True
     \<lparr>p_tags = None, p_ingredients = None, p_attrs = []\<rparr> example_db =
   Inr ((HTTP_200_OK, Some example_recipe), example_db)"
  by (simp add: view_update_def get_object_def get_queryset_def run_validation_def
      Detail_Meta_fields_def Meta_fields_def Meta_read_only_fields_def required_fields_def
      List.map_filter_simps update_def save_def example_db_def example_recipe_def
      other_recipe_def Let_def)

theorem user_field_is_ignored_witness:
  "view_update Detail_Meta_fields 1 1 True
     \<lparr>p_tags = None, p_ingredients = None, p_attrs = [User 2]\<rparr> example_db =
   Inr ((HTTP_200_OK, Some example_recipe), example_db) \<and>
   user example_recipe = 1 \<and>
   find (\<lambda>r. recipe_id r = 1) (Recipe_objects example_db) = Some example_recipe"
proof -
  let ?data = "\<lparr>p_tags = None, p_ingredients = None, p_attrs = [User 2]\<rparr>"
  have h: "Detail_Meta_fields = Meta_fields \<or> Detail_Meta_fields = Detail_Meta_fields"
    by simp
  note t = user_field_is_ignored[OF h, of example_defaults 1 ?data example_db 1 True]
  from t have "view_update Detail_Meta_fields 1 1 True ?data example_db =
           view_update Detail_Meta_fields 1 1 True
             (?data\<lparr>p_attrs := filter (\<lambda>f. key f \<noteq> ''user'') (p_attrs ?data)\<rparr>) example_db"
    by (elim conjE)
  then have e: "view_update Detail_Meta_fields 1 1 True ?data example_db =
      view_update Detail_Meta_fields 1 1 True
        \<lparr>p_tags = None, p_ingredients = None, p_attrs = []\<rparr> example_db"
    by simp
  have 1: "view_update Detail_Meta_fields 1 1 True ?data example_db =
      Inr ((HTTP_200_OK, Some example_recipe), example_db)"
    by (rule trans[OF e view_update_empty_example])
  from t 1 have "\<exists>instance. get_object 1 1 example_db = Some instance \<and>
               user example_recipe = user instance \<and> user example_recipe = 1 \<and>
               find (\<lambda>r. recipe_id r = 1) (Recipe_objects example_db) = Some example_recipe"
    by blast
  then have 2: "user example_recipe = 1"
    "find (\<lambda>r. recipe_id r = 1) (Recipe_objects example_db) = Some example_recipe"
    by blast+
  show ?thesis by (intro conjI 1 2)
qed

section \<open>Outside the integrity of the database\<close>

text \<open>
  Why integrity is assumed: on a table that holds two rows of one user and name the
  lookup raises, and so does an update that names them.
\<close>

lemma get_or_create_duplicate_rows:
  "get_or_create 1 ''Lunch''
     [\<lparr>row_id = 1, row_user = 1, row_name = ''Lunch''\<rparr>,
      \<lparr>row_id = 2, row_user = 1, row_name = ''Lunch''\<rparr>] = Inl MultipleObjectsReturned"
  by (simp add: get_or_create_def)

lemma update_duplicate_rows:
  "update 1 example_recipe \<lparr>vd_tags = Some [''Lunch''], vd_ingredients = None, vd_attrs = []\<rparr>
     (example_db\<lparr>Tag_objects :=
        [\<lparr>row_id = 1, row_user = 1, row_name = ''Lunch''\<rparr>,
         \<lparr>row_id = 2, row_user = 1, row_name = ''Lunch''\<rparr>]\<rparr>) = Inl MultipleObjectsReturned"
  by (simp add: update_def get_or_create_def example_db_def)

end
